theory Spec2Isabelle
  imports Main
begin

section \<open>The host environment and the process state\<close>

text \<open>
  The package is one module, \<open>index.tsx\<close>: a measurement function, a React hook that keeps
  a height in step with the viewport, and a wrapper component built on the hook. The module
  reads the globals \<open>window\<close>, \<open>document\<close> and \<open>process.env.NODE_ENV\<close>, writes the module
  variable \<open>hasWarned\<close>, calls \<open>console.warn\<close> and registers listeners on \<open>window\<close>. All of
  that is gathered in one record, \<open>world\<close>, that every operation takes and returns.

  Heights are pixel counts and are modelled as integers. A thrown exception is the left
  summand of the result.
\<close>

type_synonym number = int

datatype error = ReferenceError

datatype event_type = resize | orientationchange

text \<open>The identity of a function the consumer passes as \<open>onHeightChange\<close>.\<close>

type_synonym callback = nat

text \<open>
  The closure \<open>updateHeight\<close> (lines 80-89). A new function object is a new identity
  (\<open>fn_id\<close>); the closure holds the \<open>onHeightChange\<close> of the render that created it.
\<close>

record listener =
  fn_id :: nat
  captured :: "callback option"

record visual_viewport =
  vv_height :: number

text \<open>
  The properties of \<open>window\<close> the module reads. \<open>innerHeight\<close> is \<open>None\<close> when the property is
  missing or is not a number; \<open>visualViewport\<close> is \<open>None\<close> when it is undefined or null.
\<close>

record window_obj =
  innerHeight :: "number option"
  visualViewport :: "visual_viewport option"

text \<open>
  \<open>window = None\<close>: the identifier is not defined (server rendering). \<open>listeners\<close> is the
  listener list of \<open>window\<close>, each entry with its \<open>passive\<close> flag. The last four fields
  record calls, as a test spy does: they are written and never read by the program.
\<close>

record world =
  window :: "window_obj option"
  document :: bool
  NODE_ENV :: string
  hasWarned :: bool
  console :: "string list"
  listeners :: "(event_type \<times> listener \<times> bool) list"
  next_fn :: nat
  add_calls :: "(event_type \<times> listener) list"
  remove_calls :: "(event_type \<times> listener) list"
  callback_calls :: "(callback \<times> number option) list"
  measured :: "number option list"

definition typeof_window :: "world \<Rightarrow> string" where
  "typeof_window w = (case window w of None \<Rightarrow> ''undefined'' | Some _ \<Rightarrow> ''object'')"

definition typeof_document :: "world \<Rightarrow> string" where
  "typeof_document w = (if document w then ''object'' else ''undefined'')"

definition typeof_innerHeight :: "window_obj \<Rightarrow> string" where
  "typeof_innerHeight win = (case innerHeight win of None \<Rightarrow> ''undefined'' | Some _ \<Rightarrow> ''number'')"

text \<open>Evaluating the identifier \<open>window\<close>: a ReferenceError when it is not defined.\<close>

definition get_window :: "world \<Rightarrow> error + window_obj" where
  "get_window w = (case window w of None \<Rightarrow> Inl ReferenceError | Some win \<Rightarrow> Inr win)"

section \<open>The measurement function\<close>

text \<open>
  \<open>isBrowserEnvironment\<close> (lines 147-153). \<open>&&\<close> evaluates its right operand only when the
  left one is true, so \<open>window.innerHeight\<close> is read only after the two \<open>typeof\<close> tests.
\<close>

definition isBrowserEnvironment :: "world \<Rightarrow> (error + bool) \<times> world" where
  "isBrowserEnvironment w =
     (if typeof_window w \<noteq> ''undefined'' then
        if typeof_document w \<noteq> ''undefined'' then
          (case get_window w of
             Inl e \<Rightarrow> (Inl e, w)
           | Inr win \<Rightarrow> (Inr (typeof_innerHeight win = ''number''), w))
        else (Inr False, w)
      else (Inr False, w))"

text \<open>\<open>measureViewportHeight\<close> (lines 118-128).\<close>

definition measureViewportHeight :: "world \<Rightarrow> (error + number option) \<times> world" where
  "measureViewportHeight w =
     (case isBrowserEnvironment w of
        (Inl e, w1) \<Rightarrow> (Inl e, w1)
      | (Inr b, w1) \<Rightarrow>
          if \<not> b then (Inr None, w1)
          else (case get_window w1 of
                  Inl e \<Rightarrow> (Inl e, w1)
                | Inr win \<Rightarrow>
                    (case visualViewport win of
                       Some vv \<Rightarrow> (Inr (Some (vv_height vv)), w1)
                     | None \<Rightarrow> (Inr (innerHeight win), w1))))"

text \<open>The legacy export of line 158.\<close>

definition measureHeight :: "world \<Rightarrow> (error + number option) \<times> world" where
  "measureHeight = measureViewportHeight"

text \<open>
  A host environment, in the words of the specification: a window, a document and a numeric
  \<open>innerHeight\<close>.
\<close>

definition host_environment :: "world \<Rightarrow> bool" where
  "host_environment w =
     (case window w of
        None \<Rightarrow> False
      | Some win \<Rightarrow> document w \<and> innerHeight win \<noteq> None)"

section \<open>Props, elements and the state of a component instance\<close>

datatype css_value = CssString string | CssNumber number

type_synonym CSSProperties = "string \<rightharpoonup> css_value"

text \<open>\<open>DynamicViewportOptions\<close> (lines 3-10): every field is optional.\<close>

record DynamicViewportOptions =
  suppressWarnings :: "bool option"
  onHeightChange :: "callback option"
  fallbackHeight :: "string option"

text \<open>
  \<open>DynamicViewportDivProps\<close> (lines 12-14), as the component destructures it on line 32:
  \<open>style\<close>, \<open>options\<close> and the remaining attributes. \<open>forwardRef\<close> hands the ref beside the
  props; the record carries it with them.
\<close>

record DynamicViewportDivProps =
  style :: "CSSProperties option"
  options :: "DynamicViewportOptions option"
  attributes :: "(string \<times> string) list"
  ref :: "nat option"

text \<open>The element of line 55.\<close>

record div_element =
  el_ref :: "nat option"
  el_style :: CSSProperties
  el_attributes :: "(string \<times> string) list"

text \<open>
  What React keeps for one instance between renders, a cell for each hook of
  \<open>useDynamicViewportHeight\<close> in call order:
  \<^item> \<open>height\<close>: the state of line 77;
  \<^item> \<open>isClientRendered\<close>: the state of line 135;
  \<^item> \<open>updateHeight\<close>: the function \<open>useCallback\<close> memoised (line 80); its dependency is the
    callback it captured;
  \<^item> \<open>deps\<close>: the dependencies of the effect of line 91 at the last render;
  \<^item> \<open>cleanup\<close>: the function that effect returned last, given by the listener it removes.

  \<open>run_ready\<close> and \<open>run_subscribe\<close> are the effects the last render scheduled for the commit
  (the second with the values its closure holds), \<open>dirty\<close> says that a state update asks for
  a new render, and \<open>returned\<close> records what the hook returned at the last render.
\<close>

record fiber =
  height :: "number option"
  isClientRendered :: bool
  updateHeight :: listener
  deps :: "bool \<times> listener"
  cleanup :: "listener option"
  run_ready :: bool
  run_subscribe :: "(bool \<times> listener) option"
  dirty :: bool
  returned :: "number option"

section \<open>The subscription hook\<close>

text \<open>
  React itself is not part of the package. What the hook relies on is modelled as React
  documents it: \<open>useState\<close> runs its initialiser at the first render only, and a state
  update that returns the state held schedules no render; \<open>useCallback\<close> returns the
  memoised function while its dependencies are the same; \<open>useEffect\<close> runs after the
  commit of the first render and of every render at which a dependency changed, after the
  cleanup the effect returned last; unmounting runs the cleanup. A state updater is
  applied when \<open>setHeight\<close> is called (the double invocation of Strict Mode is left out).
\<close>

text \<open>\<open>onHeightChange?.(newHeight)\<close>: the consumer's function is opaque; its call is recorded.\<close>

definition call_onHeightChange :: "callback option \<Rightarrow> number option \<Rightarrow> world \<Rightarrow> world" where
  "call_onHeightChange cb n w =
     (case cb of
        None \<Rightarrow> w
      | Some c \<Rightarrow> w\<lparr>callback_calls := callback_calls w @ [(c, n)]\<rparr>)"

text \<open>
  \<open>setHeight(prevHeight => ...)\<close> (lines 82-88): the updater runs on the state held now. When
  it returns the state it was given, React keeps the state and schedules no render.
\<close>

definition setHeight :: "listener \<Rightarrow> number option \<Rightarrow> fiber \<Rightarrow> world \<Rightarrow> fiber \<times> world" where
  "setHeight l newHeight f w =
     (let prevHeight = height f in
      if prevHeight \<noteq> newHeight
      then (f\<lparr>height := newHeight, dirty := True\<rparr>, call_onHeightChange (captured l) newHeight w)
      else (f, w))"

text \<open>A call of \<open>updateHeight\<close> (lines 80-89). The measurement it takes is recorded.\<close>

definition call_updateHeight :: "listener \<Rightarrow> fiber \<Rightarrow> world \<Rightarrow> error + (fiber \<times> world)" where
  "call_updateHeight l f w =
     (case measureViewportHeight w of
        (Inl e, w1) \<Rightarrow> Inl e
      | (Inr newHeight, w1) \<Rightarrow>
          Inr (setHeight l newHeight f (w1\<lparr>measured := newHeight # measured w1\<rparr>)))"

text \<open>
  \<open>window.addEventListener\<close> and \<open>window.removeEventListener\<close>. The DOM ignores a
  registration whose type and function are already listed.
\<close>

definition addEventListener :: "event_type \<Rightarrow> listener \<Rightarrow> bool \<Rightarrow> world \<Rightarrow> error + world" where
  "addEventListener ty l passive w =
     (case get_window w of
        Inl e \<Rightarrow> Inl e
      | Inr _ \<Rightarrow>
          Inr (w\<lparr>listeners :=
                    (if list_ex (\<lambda>(t, l', _). t = ty \<and> l' = l) (listeners w)
                     then listeners w
                     else listeners w @ [(ty, l, passive)]),
                  add_calls := add_calls w @ [(ty, l)]\<rparr>))"

definition removeEventListener :: "event_type \<Rightarrow> listener \<Rightarrow> world \<Rightarrow> error + world" where
  "removeEventListener ty l w =
     (case get_window w of
        Inl e \<Rightarrow> Inl e
      | Inr _ \<Rightarrow>
          Inr (w\<lparr>listeners := filter (\<lambda>(t, l', _). \<not> (t = ty \<and> l' = l)) (listeners w),
                  remove_calls := remove_calls w @ [(ty, l)]\<rparr>))"

text \<open>\<open>useIsClientRendered\<close> (lines 134-142): the state, and whether its effect is scheduled.
  The effect has no dependencies, so it is scheduled by the first render only.\<close>

definition useIsClientRendered :: "fiber option \<Rightarrow> bool \<times> bool" where
  "useIsClientRendered fo =
     (case fo of
        None \<Rightarrow> (False, True)
      | Some f \<Rightarrow> (isClientRendered f, False))"

text \<open>The effect of lines 137-139: \<open>setIsClientRendered(true)\<close>.\<close>

definition effect_ready :: "fiber \<Rightarrow> fiber" where
  "effect_ready f =
     (if isClientRendered f then f else f\<lparr>isClientRendered := True, dirty := True\<rparr>)"

text \<open>
  \<open>useCallback(..., [onHeightChange])\<close> (lines 80-89): the memoised function while the
  dependency is the same, a new function otherwise.
\<close>

definition useCallback :: "callback option \<Rightarrow> fiber option \<Rightarrow> world \<Rightarrow> listener \<times> world" where
  "useCallback cb fo w =
     (let fresh = (\<lparr>fn_id = next_fn w, captured = cb\<rparr>, w\<lparr>next_fn := Suc (next_fn w)\<rparr>) in
      case fo of
        None \<Rightarrow> fresh
      | Some f \<Rightarrow> if captured (updateHeight f) = cb then (updateHeight f, w) else fresh)"

text \<open>
  \<open>useState(() => measureViewportHeight())\<close> (line 77): the initialiser runs at the first
  render only.
\<close>

definition useState_height :: "fiber option \<Rightarrow> world \<Rightarrow> error + (number option \<times> world)" where
  "useState_height fo w =
     (case fo of
        Some f \<Rightarrow> Inr (height f, w)
      | None \<Rightarrow>
          (case measureViewportHeight w of
             (Inl e, w1) \<Rightarrow> Inl e
           | (Inr h, w1) \<Rightarrow> Inr (h, w1\<lparr>measured := h # measured w1\<rparr>)))"

text \<open>
  A render of \<open>useDynamicViewportHeight\<close> (lines 75-111), given the \<open>onHeightChange\<close> of its
  argument: the value returned, the cells for the next render, and the world.
\<close>

definition useDynamicViewportHeight ::
  "callback option \<Rightarrow> fiber option \<Rightarrow> world \<Rightarrow> error + (number option \<times> fiber \<times> world)" where
  "useDynamicViewportHeight cb fo w =
     (case useState_height fo w of
        Inl e \<Rightarrow> Inl e
      | Inr (h, w1) \<Rightarrow>
          (let (ready, eff1) = useIsClientRendered fo;
               (l, w2) = useCallback cb fo w1;
               d = (ready, l);
               eff2 = (case fo of None \<Rightarrow> True | Some f \<Rightarrow> deps f \<noteq> d);
               v = (if ready then h else None)
           in Inr (v,
                   \<lparr>height = h, isClientRendered = ready, updateHeight = l, deps = d,
                    cleanup = (case fo of None \<Rightarrow> None | Some f \<Rightarrow> cleanup f),
                    run_ready = eff1,
                    run_subscribe = (if eff2 then Some d else None),
                    dirty = False, returned = v\<rparr>,
                   w2)))"

text \<open>The legacy export of line 157.\<close>

definition use100vh ::
  "callback option \<Rightarrow> fiber option \<Rightarrow> world \<Rightarrow> error + (number option \<times> fiber \<times> world)" where
  "use100vh = useDynamicViewportHeight"

text \<open>The cleanup function of lines 103-106.\<close>

definition run_cleanup :: "listener \<Rightarrow> world \<Rightarrow> error + world" where
  "run_cleanup l w =
     (case removeEventListener resize l w of
        Inl e \<Rightarrow> Inl e
      | Inr w1 \<Rightarrow> removeEventListener orientationchange l w1)"

text \<open>
  The effect of lines 91-107, run with the \<open>isClientRendered\<close> and \<open>updateHeight\<close> of the
  render that scheduled it.
\<close>

definition effect_subscribe :: "bool \<times> listener \<Rightarrow> fiber \<Rightarrow> world \<Rightarrow> error + (fiber \<times> world)" where
  "effect_subscribe c f w =
     (let (ready, l) = c in
      if \<not> ready then Inr (f\<lparr>cleanup := None\<rparr>, w)
      else
        (case call_updateHeight l f w of
           Inl e \<Rightarrow> Inl e
         | Inr (f1, w1) \<Rightarrow>
             (case addEventListener resize l True w1 of
                Inl e \<Rightarrow> Inl e
              | Inr w2 \<Rightarrow>
                  (case addEventListener orientationchange l True w2 of
                     Inl e \<Rightarrow> Inl e
                   | Inr w3 \<Rightarrow> Inr (f1\<lparr>cleanup := Some l\<rparr>, w3)))))"

text \<open>
  The commit after a render, as React runs passive effects: first the cleanup of every
  effect that runs again, then the effects in the order of their hooks.
\<close>

definition commit :: "fiber \<Rightarrow> world \<Rightarrow> error + (fiber \<times> world)" where
  "commit f w =
     (case (case run_subscribe f of
              None \<Rightarrow> Inr w
            | Some _ \<Rightarrow> (case cleanup f of None \<Rightarrow> Inr w | Some l \<Rightarrow> run_cleanup l w)) of
        Inl e \<Rightarrow> Inl e
      | Inr w1 \<Rightarrow>
          (let f1 = (if run_ready f then effect_ready f else f) in
           case run_subscribe f of
             None \<Rightarrow> Inr (f1\<lparr>run_ready := False\<rparr>, w1)
           | Some c \<Rightarrow>
               (case effect_subscribe c f1 w1 of
                  Inl e \<Rightarrow> Inl e
                | Inr (f2, w2) \<Rightarrow> Inr (f2\<lparr>run_ready := False, run_subscribe := None\<rparr>, w2))))"

section \<open>The wrapper component\<close>

text \<open>What JavaScript takes for true in a condition: a number other than 0, a string other
  than the empty one; null and undefined are false.\<close>

definition truthy_number :: "number option \<Rightarrow> bool" where
  "truthy_number h = (case h of None \<Rightarrow> False | Some n \<Rightarrow> n \<noteq> 0)"

definition truthy_css :: "css_value option \<Rightarrow> bool" where
  "truthy_css v =
     (case v of
        None \<Rightarrow> False
      | Some (CssString s) \<Rightarrow> s \<noteq> []
      | Some (CssNumber n) \<Rightarrow> n \<noteq> 0)"

text \<open>The decimal numeral of an integer, as the template literal of line 52 prints it.\<close>

fun digits :: "nat \<Rightarrow> string" where
  "digits n = (if n < 10 then [''0123456789'' ! n] else digits (n div 10) @ [''0123456789'' ! (n mod 10)])"

declare digits.simps [simp del]

definition Number_toString :: "number \<Rightarrow> string" where
  "Number_toString n = (if n < 0 then CHR ''-'' # digits (nat (- n)) else digits (nat n))"

text \<open>The template literal \<open>`${height}px`\<close> of line 52; null prints as \<open>null\<close>.\<close>

definition px :: "number option \<Rightarrow> string" where
  "px h = (case h of None \<Rightarrow> ''null'' | Some n \<Rightarrow> Number_toString n) @ ''px''"

definition warning_text :: string where
  "warning_text =
     ''[DynamicViewportDiv] The height property in style will be overridden. '' @
     ''Use options.suppressWarnings=true to disable this warning.''"

text \<open>The development warning of lines 42-48.\<close>

definition warn_once :: "bool \<Rightarrow> CSSProperties option \<Rightarrow> world \<Rightarrow> world" where
  "warn_once suppress st w =
     (if NODE_ENV w = ''development'' \<and> \<not> hasWarned w \<and> \<not> suppress \<and>
         truthy_css (case st of None \<Rightarrow> None | Some s \<Rightarrow> s ''height'')
      then w\<lparr>hasWarned := True, console := console w @ [warning_text]\<rparr>
      else w)"

text \<open>A render of \<open>DynamicViewportDiv\<close> (lines 31-57).\<close>

definition DynamicViewportDiv ::
  "DynamicViewportDivProps \<Rightarrow> fiber option \<Rightarrow> world \<Rightarrow> error + (div_element \<times> fiber \<times> world)" where
  "DynamicViewportDiv p fo w =
     (let opts = (case options p of
                    None \<Rightarrow> \<lparr>suppressWarnings = None, onHeightChange = None, fallbackHeight = None\<rparr>
                  | Some x \<Rightarrow> x);
          suppress = (case suppressWarnings opts of None \<Rightarrow> False | Some b \<Rightarrow> b);
          fallback = (case fallbackHeight opts of None \<Rightarrow> ''100vh'' | Some s \<Rightarrow> s)
      in case useDynamicViewportHeight (onHeightChange opts) fo w of
           Inl e \<Rightarrow> Inl e
         | Inr (h, f, w1) \<Rightarrow>
             (let w2 = warn_once suppress (style p) w1;
                  computedStyle =
                    (case style p of None \<Rightarrow> Map.empty | Some s \<Rightarrow> s)
                      (''height'' \<mapsto> CssString (if truthy_number h then px h else fallback))
              in Inr (\<lparr>el_ref = ref p, el_style = computedStyle, el_attributes = attributes p\<rparr>,
                      f, w2)))"

text \<open>The legacy export of line 156 and the default export of line 160.\<close>

definition Div100vh ::
  "DynamicViewportDivProps \<Rightarrow> fiber option \<Rightarrow> world \<Rightarrow> error + (div_element \<times> fiber \<times> world)" where
  "Div100vh = DynamicViewportDiv"

definition default_export ::
  "DynamicViewportDivProps \<Rightarrow> fiber option \<Rightarrow> world \<Rightarrow> error + (div_element \<times> fiber \<times> world)" where
  "default_export = DynamicViewportDiv"

section \<open>The life of an instance\<close>

text \<open>A mounted instance: its props, React's cells for it, and the element in the page.\<close>

record mounted =
  m_props :: DynamicViewportDivProps
  m_fiber :: fiber
  m_element :: div_element

record system =
  globals :: world
  component :: "mounted option"

text \<open>One render and the commit that follows it.\<close>

definition render_commit ::
  "DynamicViewportDivProps \<Rightarrow> fiber option \<Rightarrow> world \<Rightarrow> error + (mounted \<times> world)" where
  "render_commit p fo w =
     (case DynamicViewportDiv p fo w of
        Inl e \<Rightarrow> Inl e
      | Inr (el, f, w1) \<Rightarrow>
          (case commit f w1 of
             Inl e \<Rightarrow> Inl e
           | Inr (f2, w2) \<Rightarrow> Inr (\<lparr>m_props = p, m_fiber = f2, m_element = el\<rparr>, w2)))"

definition callback_of :: "DynamicViewportDivProps \<Rightarrow> callback option" where
  "callback_of p = (case options p of None \<Rightarrow> None | Some x \<Rightarrow> onHeightChange x)"

text \<open>
  The number of renders React still owes an instance: none when no state update is
  pending, one when the next render will schedule no effect, two otherwise.
\<close>

definition renders_due :: "mounted \<times> world \<Rightarrow> nat" where
  "renders_due s =
     (let f = m_fiber (fst s) in
      if \<not> dirty f then 0
      else if deps f = (isClientRendered f, updateHeight f) \<and>
              captured (updateHeight f) = callback_of (m_props (fst s))
      then 1 else 2)"

text \<open>
  React renders an instance again after a commit that updated its state, until no update
  is pending. The lemmas below show that this ends: a render leaves no update pending, and
  only an effect that runs can make one.
\<close>

lemma call_updateHeight_cells:
  "call_updateHeight l f w = Inr (f', w') \<Longrightarrow>
     isClientRendered f' = isClientRendered f \<and> updateHeight f' = updateHeight f \<and>
     deps f' = deps f \<and> cleanup f' = cleanup f \<and> run_ready f' = run_ready f \<and>
     run_subscribe f' = run_subscribe f \<and> returned f' = returned f"
  by (auto simp add: call_updateHeight_def setHeight_def Let_def split: prod.splits sum.splits if_splits)

lemma effect_subscribe_cells:
  "effect_subscribe c f w = Inr (f', w') \<Longrightarrow>
     isClientRendered f' = isClientRendered f \<and> updateHeight f' = updateHeight f \<and>
     deps f' = deps f \<and> run_ready f' = run_ready f \<and>
     run_subscribe f' = run_subscribe f \<and> returned f' = returned f"
  by (auto simp add: effect_subscribe_def Let_def split: prod.splits sum.splits if_splits
      dest!: call_updateHeight_cells)

lemma commit_cells:
  "commit f w = Inr (f', w') \<Longrightarrow>
     updateHeight f' = updateHeight f \<and> deps f' = deps f \<and> returned f' = returned f \<and>
     \<not> run_ready f' \<and> run_subscribe f' = None \<and>
     (\<not> run_ready f \<longrightarrow> isClientRendered f' = isClientRendered f) \<and>
     (\<not> run_ready f \<and> run_subscribe f = None \<longrightarrow> f' = f)"
  by (auto simp add: commit_def Let_def effect_ready_def split: prod.splits sum.splits if_splits option.splits
      dest!: effect_subscribe_cells)

lemma useCallback_captured: "captured (fst (useCallback cb fo w)) = cb"
  by (simp add: useCallback_def Let_def split: option.splits)

lemma useCallback_same:
  "captured (updateHeight f) = cb \<Longrightarrow> useCallback cb (Some f) w = (updateHeight f, w)"
  by (simp add: useCallback_def Let_def)

lemma useDynamicViewportHeight_update:
  "useDynamicViewportHeight cb (Some f) w =
     (let l = fst (useCallback cb (Some f) w);
          v = (if isClientRendered f then height f else None)
      in Inr (v,
              \<lparr>height = height f, isClientRendered = isClientRendered f, updateHeight = l,
               deps = (isClientRendered f, l), cleanup = cleanup f, run_ready = False,
               run_subscribe = (if deps f \<noteq> (isClientRendered f, l) then Some (isClientRendered f, l) else None),
               dirty = False, returned = v\<rparr>,
              snd (useCallback cb (Some f) w)))"
  by (simp add: useDynamicViewportHeight_def useState_height_def useIsClientRendered_def
      Let_def split: prod.splits)

lemma DynamicViewportDiv_hook:
  "DynamicViewportDiv p fo w = Inr (el, f, w') \<Longrightarrow>
     \<exists>v w1. useDynamicViewportHeight (callback_of p) fo w = Inr (v, f, w1)"
  by (simp add: DynamicViewportDiv_def callback_of_def Let_def split: sum.splits prod.splits option.splits)

lemma render_update_cells:
  assumes "DynamicViewportDiv p (Some f) w = Inr (el, f', w')"
  shows "isClientRendered f' = isClientRendered f \<and> height f' = height f \<and> \<not> dirty f' \<and> \<not> run_ready f' \<and>
     captured (updateHeight f') = callback_of p \<and>
     deps f' = (isClientRendered f', updateHeight f') \<and>
     (deps f = (isClientRendered f, updateHeight f) \<and> captured (updateHeight f) = callback_of p
        \<longrightarrow> run_subscribe f' = None \<and> updateHeight f' = updateHeight f)"
proof -
  from DynamicViewportDiv_hook [OF assms] obtain v w1 where
    h: "useDynamicViewportHeight (callback_of p) (Some f) w = Inr (v, f', w1)" by blast
  then show ?thesis
    by (auto simp add: useDynamicViewportHeight_update Let_def useCallback_captured useCallback_same)
qed

lemma render_commit_due:
  assumes "dirty (m_fiber m)" and "render_commit (m_props m) (Some (m_fiber m)) w = Inr (m', w')"
  shows "renders_due (m', w') < renders_due (m, w)"
proof -
  from assms(2) obtain el f1 w1 where
    r: "DynamicViewportDiv (m_props m) (Some (m_fiber m)) w = Inr (el, f1, w1)" and
    c: "commit f1 w1 = Inr (m_fiber m', w')" and p: "m_props m' = m_props m"
    by (auto simp add: render_commit_def split: sum.splits prod.splits)
  note R = render_update_cells [OF r] and C = commit_cells [OF c]
  show ?thesis
  proof (cases "deps (m_fiber m) = (isClientRendered (m_fiber m), updateHeight (m_fiber m)) \<and>
              captured (updateHeight (m_fiber m)) = callback_of (m_props m)")
    case True
    with R C have "m_fiber m' = f1" by simp
    with R have "\<not> dirty (m_fiber m')" by simp
    with assms(1) True show ?thesis by (simp add: renders_due_def)
  next
    case False
    from R C p have "deps (m_fiber m') = (isClientRendered (m_fiber m'), updateHeight (m_fiber m')) \<and>
              captured (updateHeight (m_fiber m')) = callback_of (m_props m')" by simp
    with assms(1) False show ?thesis by (simp add: renders_due_def Let_def)
  qed
qed

function flush :: "mounted \<times> world \<Rightarrow> error + (mounted \<times> world)" where
  "flush (m, w) =
     (if dirty (m_fiber m)
      then (case render_commit (m_props m) (Some (m_fiber m)) w of
              Inl e \<Rightarrow> Inl e
            | Inr s \<Rightarrow> flush s)
      else Inr (m, w))"
  by pat_completeness auto

termination
proof (relation "measure renders_due")
  show "wf (measure renders_due)" by simp
next
  fix m :: mounted and w :: world and x2 :: "mounted \<times> world"
  assume "dirty (m_fiber m)" and "render_commit (m_props m) (Some (m_fiber m)) w = Inr x2"
  then show "(x2, m, w) \<in> measure renders_due"
    using render_commit_due [of m w "fst x2" "snd x2"] by simp
qed

declare flush.simps [simp del]

text \<open>
  What happens to an instance: it is mounted, its parent renders it again (with the same
  props or with new ones), the window dispatches an event, the viewport changes, it is
  unmounted.
\<close>

datatype event =
  Mount DynamicViewportDivProps
| Rerender DynamicViewportDivProps
| Dispatch event_type
| Geometry window_obj
| Unmount

text \<open>
  A listener of the window is called. Its \<open>setHeight\<close> reaches the instance that is mounted;
  React drops a state update for an instance that is gone.
\<close>

definition fire :: "listener \<Rightarrow> system \<Rightarrow> error + system" where
  "fire l s =
     (case component s of
        Some m \<Rightarrow>
          (case call_updateHeight l (m_fiber m) (globals s) of
             Inl e \<Rightarrow> Inl e
           | Inr (f, w) \<Rightarrow> Inr (s\<lparr>globals := w, component := Some (m\<lparr>m_fiber := f\<rparr>)\<rparr>))
      | None \<Rightarrow>
          (case measureViewportHeight (globals s) of
             (Inl e, w1) \<Rightarrow> Inl e
           | (Inr h, w1) \<Rightarrow> Inr (s\<lparr>globals := w1\<lparr>measured := h # measured w1\<rparr>\<rparr>)))"

fun fire_all :: "listener list \<Rightarrow> system \<Rightarrow> error + system" where
  "fire_all [] s = Inr s"
| "fire_all (l # ls) s = (case fire l s of Inl e \<Rightarrow> Inl e | Inr s1 \<Rightarrow> fire_all ls s1)"

definition flush_system :: "system \<Rightarrow> error + system" where
  "flush_system s =
     (case component s of
        None \<Rightarrow> Inr s
      | Some m \<Rightarrow>
          (case flush (m, globals s) of
             Inl e \<Rightarrow> Inl e
           | Inr (m1, w1) \<Rightarrow> Inr (s\<lparr>globals := w1, component := Some m1\<rparr>)))"

text \<open>The window calls the listeners registered for the type, in order; React renders after
  they have returned.\<close>

definition dispatchEvent :: "event_type \<Rightarrow> system \<Rightarrow> error + system" where
  "dispatchEvent ty s =
     (case fire_all (map (\<lambda>(t, l, _). l) (filter (\<lambda>(t, l, _). t = ty) (listeners (globals s)))) s of
        Inl e \<Rightarrow> Inl e
      | Inr s1 \<Rightarrow> flush_system s1)"

definition step :: "event \<Rightarrow> system \<Rightarrow> error + system" where
  "step e s =
     (case e of
        Mount p \<Rightarrow>
          (case component s of
             Some _ \<Rightarrow> Inr s
           | None \<Rightarrow>
               (case render_commit p None (globals s) of
                  Inl x \<Rightarrow> Inl x
                | Inr (m, w) \<Rightarrow> flush_system (s\<lparr>globals := w, component := Some m\<rparr>)))
      | Rerender p \<Rightarrow>
          (case component s of
             None \<Rightarrow> Inr s
           | Some m \<Rightarrow>
               (case render_commit p (Some (m_fiber m)) (globals s) of
                  Inl x \<Rightarrow> Inl x
                | Inr (m1, w) \<Rightarrow> flush_system (s\<lparr>globals := w, component := Some m1\<rparr>)))
      | Dispatch ty \<Rightarrow> dispatchEvent ty s
      | Geometry win \<Rightarrow>
          (case window (globals s) of
             None \<Rightarrow> Inr s
           | Some _ \<Rightarrow> Inr (s\<lparr>globals := (globals s)\<lparr>window := Some win\<rparr>\<rparr>))
      | Unmount \<Rightarrow>
          (case component s of
             None \<Rightarrow> Inr s
           | Some m \<Rightarrow>
               (case (case cleanup (m_fiber m) of
                        None \<Rightarrow> Inr (globals s)
                      | Some l \<Rightarrow> run_cleanup l (globals s)) of
                  Inl x \<Rightarrow> Inl x
                | Inr w \<Rightarrow> Inr (s\<lparr>globals := w, component := None\<rparr>))))"

fun run :: "event list \<Rightarrow> system \<Rightarrow> error + system" where
  "run [] s = Inr s"
| "run (e # es) s = (case step e s of Inl x \<Rightarrow> Inl x | Inr s1 \<Rightarrow> run es s1)"

text \<open>The process when the module has just been loaded.\<close>

definition initial :: "window_obj option \<Rightarrow> bool \<Rightarrow> string \<Rightarrow> system" where
  "initial win doc env =
     \<lparr>globals =
        \<lparr>window = win, document = doc, NODE_ENV = env, hasWarned = False, console = [],
         listeners = [], next_fn = 0, add_calls = [], remove_calls = [],
         callback_calls = [], measured = []\<rparr>,
      component = None\<rparr>"

section \<open>The operations of the module on the process\<close>

text \<open>
  Every instance of the wrapper and every user of the hook works on the one process state.
  Whatever the number of instances, what the module does to that state is a sequence of
  these operations, each by some instance in some state of its cells: a render of the
  wrapper, a render of the hook alone, a commit, a call of a listener, a cleanup. The
  viewport may change in between.
\<close>

datatype operation =
  Render DynamicViewportDivProps "fiber option"
| Hook "callback option" "fiber option"
| Commit fiber
| Notify listener fiber
| Cleanup listener
| Viewport "window_obj option"

definition perform :: "operation \<Rightarrow> world \<Rightarrow> error + world" where
  "perform x w =
     (case x of
        Render p fo \<Rightarrow>
          (case DynamicViewportDiv p fo w of Inl e \<Rightarrow> Inl e | Inr (el, f, w1) \<Rightarrow> Inr w1)
      | Hook cb fo \<Rightarrow>
          (case useDynamicViewportHeight cb fo w of Inl e \<Rightarrow> Inl e | Inr (v, f, w1) \<Rightarrow> Inr w1)
      | Commit f \<Rightarrow> (case commit f w of Inl e \<Rightarrow> Inl e | Inr (f1, w1) \<Rightarrow> Inr w1)
      | Notify l f \<Rightarrow>
          (case call_updateHeight l f w of Inl e \<Rightarrow> Inl e | Inr (f1, w1) \<Rightarrow> Inr w1)
      | Cleanup l \<Rightarrow> run_cleanup l w
      | Viewport win \<Rightarrow> Inr (w\<lparr>window := win\<rparr>))"

fun perform_all :: "operation list \<Rightarrow> world \<Rightarrow> error + world" where
  "perform_all [] w = Inr w"
| "perform_all (x # xs) w = (case perform x w of Inl e \<Rightarrow> Inl e | Inr w1 \<Rightarrow> perform_all xs w1)"

text \<open>An operation is quiet when it leaves the warning flag and the console as they were;
  it warned when the flag was false, is now true, and one warning was written.\<close>

definition quiet :: "world \<Rightarrow> world \<Rightarrow> bool" where
  "quiet w w' \<longleftrightarrow> hasWarned w' = hasWarned w \<and> console w' = console w"

definition warned :: "world \<Rightarrow> world \<Rightarrow> bool" where
  "warned w w' \<longleftrightarrow> \<not> hasWarned w \<and> hasWarned w' \<and> console w' = console w @ [warning_text]"

section \<open>Observations and sample inputs\<close>

text \<open>The options of a wrapper with the defaults of lines 33-37 filled in.\<close>

definition fallback_of :: "DynamicViewportDivProps \<Rightarrow> string" where
  "fallback_of p =
     (case options p of
        None \<Rightarrow> ''100vh''
      | Some x \<Rightarrow> (case fallbackHeight x of None \<Rightarrow> ''100vh'' | Some s \<Rightarrow> s))"

definition suppress_of :: "DynamicViewportDivProps \<Rightarrow> bool" where
  "suppress_of p =
     (case options p of
        None \<Rightarrow> False
      | Some x \<Rightarrow> (case suppressWarnings x of None \<Rightarrow> False | Some b \<Rightarrow> b))"

text \<open>The height in the style of the element in the page, and the value the hook returned
  at the last render.\<close>

definition rendered_height :: "error + system \<Rightarrow> css_value option" where
  "rendered_height r =
     (case r of
        Inl _ \<Rightarrow> None
      | Inr s \<Rightarrow> (case component s of None \<Rightarrow> None | Some m \<Rightarrow> el_style (m_element m) ''height''))"

definition subscribed_height :: "error + system \<Rightarrow> number option" where
  "subscribed_height r =
     (case r of
        Inl _ \<Rightarrow> None
      | Inr s \<Rightarrow> (case component s of None \<Rightarrow> None | Some m \<Rightarrow> returned (m_fiber m)))"

definition plain_props :: DynamicViewportDivProps where
  "plain_props = \<lparr>style = None, options = None, attributes = [], ref = None\<rparr>"

definition callback_props :: "callback \<Rightarrow> DynamicViewportDivProps" where
  "callback_props c =
     \<lparr>style = None,
      options = Some \<lparr>suppressWarnings = None, onHeightChange = Some c, fallbackHeight = None\<rparr>,
      attributes = [], ref = None\<rparr>"

definition tall_props :: DynamicViewportDivProps where
  "tall_props = \<lparr>style = Some [''height'' \<mapsto> CssString ''50px''], options = None, attributes = [], ref = None\<rparr>"

definition layout_window :: "number \<Rightarrow> window_obj" where
  "layout_window n = \<lparr>innerHeight = Some n, visualViewport = None\<rparr>"

definition visual_window :: "number \<Rightarrow> number \<Rightarrow> window_obj" where
  "visual_window n v = \<lparr>innerHeight = Some n, visualViewport = Some \<lparr>vv_height = v\<rparr>\<rparr>"

definition browser :: "window_obj \<Rightarrow> world" where
  "browser win = globals (initial (Some win) True ''development'')"

text \<open>The cells of an instance that is subscribed with the listener \<open>l\<close> and holds \<open>h\<close>.\<close>

definition subscribed_fiber :: "listener \<Rightarrow> number option \<Rightarrow> fiber" where
  "subscribed_fiber l h =
     \<lparr>height = h, isClientRendered = True, updateHeight = l, deps = (True, l),
      cleanup = Some l, run_ready = False, run_subscribe = None, dirty = False,
      returned = h\<rparr>"

text \<open>What a measurement would return in a state of the process.\<close>

definition viewport_height :: "world \<Rightarrow> number option" where
  "viewport_height w =
     (case window w of
        None \<Rightarrow> None
      | Some win \<Rightarrow>
          if document w \<and> innerHeight win \<noteq> None
          then (case visualViewport win of Some vv \<Rightarrow> Some (vv_height vv) | None \<Rightarrow> innerHeight win)
          else None)"

section \<open>A subscribed instance\<close>

text \<open>The element the wrapper renders for props \<open>p\<close> when the hook returns \<open>h\<close>.\<close>

definition element_for :: "DynamicViewportDivProps \<Rightarrow> number option \<Rightarrow> div_element" where
  "element_for p h =
     \<lparr>el_ref = ref p,
      el_style = (case style p of None \<Rightarrow> Map.empty | Some s \<Rightarrow> s)
         (''height'' \<mapsto> CssString (if truthy_number h then px h else fallback_of p)),
      el_attributes = attributes p\<rparr>"

text \<open>
  The state an instance rests in once it is ready: the listener \<open>l\<close> is the memoised
  \<open>updateHeight\<close>, it is the one listener of the window for both event types, and the height
  held and returned is the last measurement taken.
\<close>

definition subscribed :: "listener \<Rightarrow> system \<Rightarrow> bool" where
  "subscribed l s =
     (case component s of
        None \<Rightarrow> False
      | Some m \<Rightarrow>
          callback_of (m_props m) = captured l \<and>
          window (globals s) \<noteq> None \<and>
          listeners (globals s) = [(resize, l, True), (orientationchange, l, True)] \<and>
          (case measured (globals s) of
             [] \<Rightarrow> False
           | h # _ \<Rightarrow> m_fiber m = subscribed_fiber l h))"

text \<open>No call of \<open>addEventListener\<close> or \<open>removeEventListener\<close> between two states.\<close>

definition same_listeners :: "world \<Rightarrow> world \<Rightarrow> bool" where
  "same_listeners w w' \<longleftrightarrow>
     add_calls w' = add_calls w \<and> remove_calls w' = remove_calls w \<and> listeners w' = listeners w"

text \<open>The events that neither change the identity of \<open>onHeightChange\<close> nor unmount.\<close>

fun keeps_subscription :: "callback option \<Rightarrow> event \<Rightarrow> bool" where
  "keeps_subscription cb (Rerender p) = (callback_of p = cb)"
| "keeps_subscription cb Unmount = False"
| "keeps_subscription cb _ = True"

text \<open>The events that leave the instance mounted.\<close>

fun stays_mounted :: "event \<Rightarrow> bool" where
  "stays_mounted Unmount = False"
| "stays_mounted _ = True"

text \<open>
  Between two states, the listener \<open>l\<close> was registered once for each event type, after the
  listener of the cleanup \<open>c\<close> (when there is one) was removed once for each.
\<close>

definition renewed :: "listener option \<Rightarrow> listener \<Rightarrow> world \<Rightarrow> world \<Rightarrow> bool" where
  "renewed c l w w' \<longleftrightarrow>
     listeners w' = [(resize, l, True), (orientationchange, l, True)] \<and>
     add_calls w' = add_calls w @ [(resize, l), (orientationchange, l)] \<and>
     remove_calls w' =
       remove_calls w @ (case c of None \<Rightarrow> [] | Some old \<Rightarrow> [(resize, old), (orientationchange, old)]) \<and>
     window w' = window w \<and> document w' = document w"

section \<open>The measurement function: C6, C7, C8\<close>

lemma isBrowserEnvironment_eq:
  "isBrowserEnvironment w = (Inr (host_environment w), w)"
  by (simp add: isBrowserEnvironment_def host_environment_def typeof_window_def
      typeof_document_def typeof_innerHeight_def get_window_def
      split: option.splits)

lemma measureViewportHeight_eq:
  "measureViewportHeight w =
     (Inr (case window w of
             None \<Rightarrow> None
           | Some win \<Rightarrow>
               if document w \<and> innerHeight win \<noteq> None
               then (case visualViewport win of Some vv \<Rightarrow> Some (vv_height vv) | None \<Rightarrow> innerHeight win)
               else None), w)"
  by (simp add: measureViewportHeight_def isBrowserEnvironment_eq host_environment_def get_window_def
      split: option.splits)

lemma measureViewportHeight_viewport: "measureViewportHeight w = (Inr (viewport_height w), w)"
  by (simp add: measureViewportHeight_eq viewport_height_def)

lemma viewport_height_cong:
  "window w' = window w \<Longrightarrow> document w' = document w \<Longrightarrow> viewport_height w' = viewport_height w"
  by (simp add: viewport_height_def split: option.splits)

lemma browser_fields:
  "window (browser win) = Some win" "document (browser win)" "NODE_ENV (browser win) = ''development''"
  "\<not> hasWarned (browser win)" "console (browser win) = []" "listeners (browser win) = []"
  "next_fn (browser win) = 0" "add_calls (browser win) = []" "remove_calls (browser win) = []"
  "callback_calls (browser win) = []" "measured (browser win) = []"
  by (simp_all add: browser_def initial_def)

text \<open>
  C6. Outside a host environment (no window, no document, or an \<open>innerHeight\<close> that is not a
  number) the measurement function returns null: the result is a value, not a thrown
  error, and it is not a number.
\<close>

theorem measureViewportHeight_non_host:
  "window w = None \<or> \<not> document w \<or> (\<exists>win. window w = Some win \<and> innerHeight win = None)
   \<Longrightarrow> measureViewportHeight w = (Inr None, w)"
  by (auto simp add: measureViewportHeight_eq split: option.splits)

theorem measureViewportHeight_non_host_witness:
  "measureViewportHeight (globals (initial None True ''production'')) =
     (Inr None, globals (initial None True ''production'')) \<and>
   measureViewportHeight (globals (initial (Some (layout_window 667)) False ''production'')) =
     (Inr None, globals (initial (Some (layout_window 667)) False ''production'')) \<and>
   measureViewportHeight
       (globals (initial (Some \<lparr>innerHeight = None, visualViewport = Some \<lparr>vv_height = 553\<rparr>\<rparr>) True ''production'')) =
     (Inr None,
      globals (initial (Some \<lparr>innerHeight = None, visualViewport = Some \<lparr>vv_height = 553\<rparr>\<rparr>) True ''production''))"
  using measureViewportHeight_non_host [of "globals (initial None True ''production'')"]
    measureViewportHeight_non_host [of "globals (initial (Some (layout_window 667)) False ''production'')"]
    measureViewportHeight_non_host
      [of "globals (initial (Some \<lparr>innerHeight = None, visualViewport = Some \<lparr>vv_height = 553\<rparr>\<rparr>) True ''production'')"]
  by (simp add: initial_def)

text \<open>
  C7. In a host environment the measurement function returns the height of the visual
  viewport when \<open>window.visualViewport\<close> is present, and \<open>window.innerHeight\<close> otherwise.
\<close>

theorem measureViewportHeight_host:
  assumes "window w = Some win" and "document w" and "innerHeight win = Some n"
  shows "measureViewportHeight w =
           (Inr (case visualViewport win of Some vv \<Rightarrow> Some (vv_height vv) | None \<Rightarrow> Some n), w)"
  using assms by (simp add: measureViewportHeight_eq split: option.splits)

theorem measureViewportHeight_host_witness:
  "measureViewportHeight (browser (visual_window 667 553)) = (Inr (Some 553), browser (visual_window 667 553)) \<and>
   measureViewportHeight (browser (layout_window 667)) = (Inr (Some 667), browser (layout_window 667))"
  using measureViewportHeight_host [of "browser (visual_window 667 553)" "visual_window 667 553" 667]
    measureViewportHeight_host [of "browser (layout_window 667)" "layout_window 667" 667]
  by (simp add: browser_def initial_def layout_window_def visual_window_def)

text \<open>
  C8. The measurement function is pure: its result is the same in any two states of the
  process with the same \<open>window\<close> and \<open>document\<close>, whatever else differs (the warning flag,
  the listeners, what was measured before), a call leaves the state of the process as it
  was, and so a second call returns what the first returned.
\<close>

theorem measureViewportHeight_pure:
  assumes "window w' = window w" and "document w' = document w"
  shows "fst (measureViewportHeight w') = fst (measureViewportHeight w) \<and>
         snd (measureViewportHeight w) = w \<and>
         measureViewportHeight (snd (measureViewportHeight w)) = measureViewportHeight w"
  using assms by (simp add: measureViewportHeight_eq split: option.splits)

theorem measureViewportHeight_pure_witness:
  "fst (measureViewportHeight ((browser (layout_window 667))\<lparr>hasWarned := True, next_fn := 5, measured := [Some 3]\<rparr>))
     = fst (measureViewportHeight (browser (layout_window 667))) \<and>
   snd (measureViewportHeight (browser (layout_window 667))) = browser (layout_window 667)"
  using measureViewportHeight_pure
    [of "(browser (layout_window 667))\<lparr>hasWarned := True, next_fn := 5, measured := [Some 3]\<rparr>"
        "browser (layout_window 667)"]
  by (simp add: browser_def initial_def)

section \<open>The legacy exports: C9\<close>

text \<open>
  C9. The legacy names are the same values: \<open>Div100vh\<close> and the default export are the
  wrapper, \<open>use100vh\<close> is the hook, \<open>measureHeight\<close> is the measurement function.
\<close>

theorem legacy_exports:
  "Div100vh = DynamicViewportDiv \<and> default_export = DynamicViewportDiv \<and>
   use100vh = useDynamicViewportHeight \<and> measureHeight = measureViewportHeight"
  by (simp add: Div100vh_def default_export_def use100vh_def measureHeight_def)

section \<open>The height the wrapper renders: C1, C10\<close>

lemma DynamicViewportDiv_eq:
  assumes "useDynamicViewportHeight (callback_of p) fo w = Inr (h, f, w1)"
  shows "DynamicViewportDiv p fo w =
     Inr (\<lparr>el_ref = ref p,
           el_style = (case style p of None \<Rightarrow> Map.empty | Some s \<Rightarrow> s)
              (''height'' \<mapsto> CssString (if truthy_number h then px h else fallback_of p)),
           el_attributes = attributes p\<rparr>,
          f, warn_once (suppress_of p) (style p) w1)"
proof (cases "options p")
  case None
  with assms show ?thesis
    by (simp add: DynamicViewportDiv_def callback_of_def fallback_of_def suppress_of_def)
next
  case (Some x)
  with assms show ?thesis
    by (simp add: DynamicViewportDiv_def callback_of_def fallback_of_def suppress_of_def)
qed

lemma subscribed_fiber_render:
  "useDynamicViewportHeight (captured l) (Some (subscribed_fiber l h)) w =
     Inr (h, subscribed_fiber l h, w)"
  by (simp add: useDynamicViewportHeight_update useCallback_same subscribed_fiber_def)

text \<open>
  C1, as the claim states it, fails: mounted in a window whose \<open>innerHeight\<close> is 0, the hook
  returns the number 0, which is not null, and the wrapper renders the fallback, not
  \<open>0px\<close>.
\<close>

theorem rendered_height_counterexample:
  "subscribed_height (run [Mount plain_props] (initial (Some (layout_window 0)) True ''production'')) = Some 0 \<and>
   rendered_height (run [Mount plain_props] (initial (Some (layout_window 0)) True ''production''))
     \<noteq> Some (CssString (px (Some 0)))"
  by code_simp

text \<open>
  C1, amended. At every render of the wrapper, the height of the rendered style is the
  measured height followed by \<open>px\<close> when the hook returned a number other than 0, and the
  configured \<open>fallbackHeight\<close> (\<open>100vh\<close> when none is configured) when the hook returned
  null or 0.
\<close>

theorem rendered_height_truthy:
  assumes "useDynamicViewportHeight (callback_of p) fo w = Inr (h, f, w1)"
  shows "\<exists>el w2. DynamicViewportDiv p fo w = Inr (el, f, w2) \<and>
           el_style el ''height'' =
             Some (CssString (case h of
                                None \<Rightarrow> fallback_of p
                              | Some n \<Rightarrow> if n \<noteq> 0 then Number_toString n @ ''px'' else fallback_of p))"
  by (simp add: DynamicViewportDiv_eq [OF assms] truthy_number_def px_def split: option.splits)

theorem rendered_height_truthy_witness:
  "useDynamicViewportHeight (callback_of plain_props)
      (Some (subscribed_fiber \<lparr>fn_id = 0, captured = None\<rparr> (Some 667))) (browser (layout_window 667))
     = Inr (Some 667, subscribed_fiber \<lparr>fn_id = 0, captured = None\<rparr> (Some 667), browser (layout_window 667)) \<and>
   (\<exists>el w2. DynamicViewportDiv plain_props
        (Some (subscribed_fiber \<lparr>fn_id = 0, captured = None\<rparr> (Some 667))) (browser (layout_window 667))
          = Inr (el, subscribed_fiber \<lparr>fn_id = 0, captured = None\<rparr> (Some 667), w2) \<and>
      el_style el ''height'' = Some (CssString ''667px''))"
proof -
  have c: "callback_of plain_props = captured \<lparr>fn_id = 0, captured = None\<rparr>"
    by (simp add: callback_of_def plain_props_def)
  have n: "Number_toString 667 @ ''px'' = ''667px''"
    by code_simp
  have h: "useDynamicViewportHeight (callback_of plain_props)
      (Some (subscribed_fiber \<lparr>fn_id = 0, captured = None\<rparr> (Some 667))) (browser (layout_window 667))
     = Inr (Some 667, subscribed_fiber \<lparr>fn_id = 0, captured = None\<rparr> (Some 667), browser (layout_window 667))"
    unfolding c by (rule subscribed_fiber_render)
  from rendered_height_truthy [OF h] show ?thesis
    by (simp add: h n)
qed

text \<open>
  C10. When the hook returns the number 0, the wrapper renders the fallback string, where
  the template literal would have given \<open>0px\<close>.
\<close>

theorem rendered_height_zero:
  assumes "useDynamicViewportHeight (callback_of p) fo w = Inr (Some 0, f, w1)"
  shows "\<exists>el w2. DynamicViewportDiv p fo w = Inr (el, f, w2) \<and>
           el_style el ''height'' = Some (CssString (fallback_of p)) \<and> px (Some 0) = ''0px''"
proof -
  have "px (Some 0) = ''0px''"
    by code_simp
  then show ?thesis
    by (simp add: DynamicViewportDiv_eq [OF assms] truthy_number_def)
qed

theorem rendered_height_zero_witness:
  "useDynamicViewportHeight (callback_of plain_props)
      (Some (subscribed_fiber \<lparr>fn_id = 0, captured = None\<rparr> (Some 0))) (browser (layout_window 0))
     = Inr (Some 0, subscribed_fiber \<lparr>fn_id = 0, captured = None\<rparr> (Some 0), browser (layout_window 0)) \<and>
   (\<exists>el w2. DynamicViewportDiv plain_props
        (Some (subscribed_fiber \<lparr>fn_id = 0, captured = None\<rparr> (Some 0))) (browser (layout_window 0))
          = Inr (el, subscribed_fiber \<lparr>fn_id = 0, captured = None\<rparr> (Some 0), w2) \<and>
      el_style el ''height'' = Some (CssString ''100vh''))"
proof -
  have c: "callback_of plain_props = captured \<lparr>fn_id = 0, captured = None\<rparr>"
    by (simp add: callback_of_def plain_props_def)
  have h: "useDynamicViewportHeight (callback_of plain_props)
      (Some (subscribed_fiber \<lparr>fn_id = 0, captured = None\<rparr> (Some 0))) (browser (layout_window 0))
     = Inr (Some 0, subscribed_fiber \<lparr>fn_id = 0, captured = None\<rparr> (Some 0), browser (layout_window 0))"
    unfolding c by (rule subscribed_fiber_render)
  have f: "fallback_of plain_props = ''100vh''"
    by (simp add: fallback_of_def plain_props_def)
  from rendered_height_zero [OF h] show ?thesis
    unfolding f using h by blast
qed

section \<open>The update policy: C4\<close>

lemma call_updateHeight_eq:
  "call_updateHeight l f w =
     Inr (setHeight l (viewport_height w) f (w\<lparr>measured := viewport_height w # measured w\<rparr>))"
  by (simp add: call_updateHeight_def measureViewportHeight_viewport)

text \<open>
  C4. A call of the listener measures again. When the measurement differs from the state
  held, the consumer's callback (when there is one) is called with the new value, the state
  becomes the new value and a render is due. When it is the same, the cells of the
  instance stay as they were, no render is due and no callback is called.
\<close>

theorem updateHeight_policy:
  assumes "measureViewportHeight w = (Inr n, w1)"
  shows "(n \<noteq> height f \<longrightarrow>
            call_updateHeight l f w =
              Inr (f\<lparr>height := n, dirty := True\<rparr>,
                   w\<lparr>measured := n # measured w,
                     callback_calls := callback_calls w @ (case captured l of None \<Rightarrow> [] | Some c \<Rightarrow> [(c, n)])\<rparr>)) \<and>
         (n = height f \<longrightarrow>
            call_updateHeight l f w = Inr (f, w\<lparr>measured := n # measured w\<rparr>))"
proof -
  have n: "viewport_height w = n"
    using assms by (auto simp add: measureViewportHeight_viewport)
  show ?thesis
    by (cases "captured l") (auto simp add: call_updateHeight_eq n setHeight_def call_onHeightChange_def)
qed

theorem updateHeight_policy_witness:
  "measureViewportHeight (browser (layout_window 600)) = (Inr (Some 600), browser (layout_window 600)) \<and>
   call_updateHeight \<lparr>fn_id = 0, captured = Some 7\<rparr> (subscribed_fiber \<lparr>fn_id = 0, captured = Some 7\<rparr> (Some 667)) (browser (layout_window 600)) =
     Inr ((subscribed_fiber \<lparr>fn_id = 0, captured = Some 7\<rparr> (Some 667))\<lparr>height := Some 600, dirty := True\<rparr>,
          (browser (layout_window 600))\<lparr>measured := [Some 600], callback_calls := [(7, Some 600)]\<rparr>) \<and>
   call_updateHeight \<lparr>fn_id = 0, captured = Some 7\<rparr> (subscribed_fiber \<lparr>fn_id = 0, captured = Some 7\<rparr> (Some 600)) (browser (layout_window 600)) =
     Inr (subscribed_fiber \<lparr>fn_id = 0, captured = Some 7\<rparr> (Some 600),
          (browser (layout_window 600))\<lparr>measured := [Some 600]\<rparr>)"
proof -
  have m: "measureViewportHeight (browser (layout_window 600)) = (Inr (Some 600), browser (layout_window 600))"
    by (simp add: measureViewportHeight_eq browser_fields layout_window_def)
  from updateHeight_policy [OF m, of "subscribed_fiber \<lparr>fn_id = 0, captured = Some 7\<rparr> (Some 667)" "\<lparr>fn_id = 0, captured = Some 7\<rparr>"]
    updateHeight_policy [OF m, of "subscribed_fiber \<lparr>fn_id = 0, captured = Some 7\<rparr> (Some 600)" "\<lparr>fn_id = 0, captured = Some 7\<rparr>"]
  show ?thesis
    by (simp add: m subscribed_fiber_def browser_fields)
qed

section \<open>The listeners of an instance: C3\<close>

lemma warn_once_fields:
  "window (warn_once b st w) = window w" "document (warn_once b st w) = document w"
  "listeners (warn_once b st w) = listeners w" "next_fn (warn_once b st w) = next_fn w"
  "add_calls (warn_once b st w) = add_calls w" "remove_calls (warn_once b st w) = remove_calls w"
  "callback_calls (warn_once b st w) = callback_calls w" "measured (warn_once b st w) = measured w"
  by (simp_all add: warn_once_def)

lemma viewport_height_warn_once: "viewport_height (warn_once b st w) = viewport_height w"
  by (rule viewport_height_cong) (simp_all add: warn_once_fields)

text \<open>A render of an instance that is ready and whose effect has nothing to redo.\<close>

lemma settled_render:
  assumes "isClientRendered f" and "deps f = (True, updateHeight f)"
    and "captured (updateHeight f) = cb" and "cleanup f = Some (updateHeight f)"
  shows "useDynamicViewportHeight cb (Some f) w =
           Inr (height f, subscribed_fiber (updateHeight f) (height f), w)"
  using assms
  by (simp add: useDynamicViewportHeight_update useCallback_same subscribed_fiber_def Let_def)

lemma settled_render_commit:
  assumes "isClientRendered f" and "deps f = (True, updateHeight f)"
    and "captured (updateHeight f) = callback_of p" and "cleanup f = Some (updateHeight f)"
  shows "render_commit p (Some f) w =
           Inr (\<lparr>m_props = p, m_fiber = subscribed_fiber (updateHeight f) (height f),
                 m_element = element_for p (height f)\<rparr>,
                warn_once (suppress_of p) (style p) w)"
proof -
  have c: "commit (subscribed_fiber (updateHeight f) (height f)) w' =
             Inr (subscribed_fiber (updateHeight f) (height f), w')" for w'
    by (simp add: commit_def subscribed_fiber_def)
  show ?thesis
    by (simp add: render_commit_def DynamicViewportDiv_eq [OF settled_render [OF assms]]
        c element_for_def)
qed

lemma flush_clean: "\<not> dirty (m_fiber m) \<Longrightarrow> flush (m, w) = Inr (m, w)"
  by (simp add: flush.simps)

lemma flush_settled:
  assumes "isClientRendered (m_fiber m)" and "deps (m_fiber m) = (True, updateHeight (m_fiber m))"
    and "captured (updateHeight (m_fiber m)) = callback_of (m_props m)"
    and "cleanup (m_fiber m) = Some (updateHeight (m_fiber m))"
    and "dirty (m_fiber m)"
  shows "flush (m, w) =
           Inr (\<lparr>m_props = m_props m,
                 m_fiber = subscribed_fiber (updateHeight (m_fiber m)) (height (m_fiber m)),
                 m_element = element_for (m_props m) (height (m_fiber m))\<rparr>,
                warn_once (suppress_of (m_props m)) (style (m_props m)) w)"
  by (subst flush.simps)
    (simp add: assms settled_render_commit [OF assms(1-4)] flush_clean subscribed_fiber_def)

lemma call_onHeightChange_fields:
  "window (call_onHeightChange cb n w) = window w" "document (call_onHeightChange cb n w) = document w"
  "listeners (call_onHeightChange cb n w) = listeners w" "next_fn (call_onHeightChange cb n w) = next_fn w"
  "add_calls (call_onHeightChange cb n w) = add_calls w"
  "remove_calls (call_onHeightChange cb n w) = remove_calls w"
  "measured (call_onHeightChange cb n w) = measured w"
  by (simp_all add: call_onHeightChange_def split: option.splits)

lemma subscribedE:
  assumes "subscribed l s"
  obtains m h ms where "component s = Some m" and "callback_of (m_props m) = captured l"
    and "window (globals s) \<noteq> None"
    and "listeners (globals s) = [(resize, l, True), (orientationchange, l, True)]"
    and "measured (globals s) = h # ms" and "m_fiber m = subscribed_fiber l h"
  using assms by (auto simp add: subscribed_def split: option.splits list.splits)

lemma subscribedI:
  assumes "component s = Some m" and "callback_of (m_props m) = captured l"
    and "window (globals s) \<noteq> None"
    and "listeners (globals s) = [(resize, l, True), (orientationchange, l, True)]"
    and "measured (globals s) = h # ms" and "m_fiber m = subscribed_fiber l h"
  shows "subscribed l s"
  using assms by (simp add: subscribed_def)

lemma subscribed_fiber_fields:
  "height (subscribed_fiber l h) = h" "isClientRendered (subscribed_fiber l h)"
  "updateHeight (subscribed_fiber l h) = l" "deps (subscribed_fiber l h) = (True, l)"
  "cleanup (subscribed_fiber l h) = Some l" "\<not> run_ready (subscribed_fiber l h)"
  "run_subscribe (subscribed_fiber l h) = None" "\<not> dirty (subscribed_fiber l h)"
  "returned (subscribed_fiber l h) = h"
  by (simp_all add: subscribed_fiber_def)

lemma dispatch_subscribed:
  assumes "subscribed l s"
  shows "\<exists>s'. step (Dispatch ty) s = Inr s' \<and> subscribed l s' \<and>
           same_listeners (globals s) (globals s')"
proof -
  from assms obtain m h ms where m: "component s = Some m"
    and cb: "callback_of (m_props m) = captured l"
    and win: "window (globals s) \<noteq> None"
    and ls: "listeners (globals s) = [(resize, l, True), (orientationchange, l, True)]"
    and ms: "measured (globals s) = h # ms" and f: "m_fiber m = subscribed_fiber l h"
    by (rule subscribedE)
  define n where "n = viewport_height (globals s)"
  have called: "map (\<lambda>(t, l, _). l) (filter (\<lambda>(t, l, _). t = ty) (listeners (globals s))) = [l]"
    by (cases ty) (simp_all add: ls)
  show ?thesis
  proof (cases "n = h")
    case True
    have "fire l s = Inr (s\<lparr>globals := (globals s)\<lparr>measured := h # measured (globals s)\<rparr>,
                            component := Some (m\<lparr>m_fiber := subscribed_fiber l h\<rparr>)\<rparr>)"
      using True by (simp add: fire_def m f call_updateHeight_eq n_def [symmetric] setHeight_def
          subscribed_fiber_fields)
    then have "step (Dispatch ty) s =
        Inr (s\<lparr>globals := (globals s)\<lparr>measured := h # measured (globals s)\<rparr>,
               component := Some (m\<lparr>m_fiber := subscribed_fiber l h\<rparr>)\<rparr>)"
      by (simp add: step_def dispatchEvent_def called flush_system_def flush_clean
          subscribed_fiber_fields)
    moreover have "subscribed l (s\<lparr>globals := (globals s)\<lparr>measured := h # measured (globals s)\<rparr>,
               component := Some (m\<lparr>m_fiber := subscribed_fiber l h\<rparr>)\<rparr>)"
      by (rule subscribedI [where h = h and m = "m\<lparr>m_fiber := subscribed_fiber l h\<rparr>"])
        (simp_all add: cb win ls)
    ultimately show ?thesis
      by (simp add: same_listeners_def)
  next
    case False
    let ?w1 = "call_onHeightChange (captured l) n ((globals s)\<lparr>measured := n # measured (globals s)\<rparr>)"
    let ?f1 = "(subscribed_fiber l h)\<lparr>height := n, dirty := True\<rparr>"
    let ?m1 = "m\<lparr>m_fiber := ?f1\<rparr>"
    let ?s' = "s\<lparr>globals := warn_once (suppress_of (m_props m)) (style (m_props m)) ?w1,
                component := Some \<lparr>m_props = m_props m, m_fiber = subscribed_fiber l n,
                                   m_element = element_for (m_props m) n\<rparr>\<rparr>"
    have fire: "fire l s = Inr (s\<lparr>globals := ?w1, component := Some ?m1\<rparr>)"
      using False by (simp add: fire_def m f call_updateHeight_eq n_def [symmetric] setHeight_def
          subscribed_fiber_fields)
    have "flush (?m1, ?w1) =
            Inr (\<lparr>m_props = m_props ?m1,
                  m_fiber = subscribed_fiber (updateHeight (m_fiber ?m1)) (height (m_fiber ?m1)),
                  m_element = element_for (m_props ?m1) (height (m_fiber ?m1))\<rparr>,
                 warn_once (suppress_of (m_props ?m1)) (style (m_props ?m1)) ?w1)"
      by (rule flush_settled) (simp_all add: subscribed_fiber_fields cb)
    then have flush: "flush (?m1, ?w1) =
            Inr (\<lparr>m_props = m_props m, m_fiber = subscribed_fiber l n,
                  m_element = element_for (m_props m) n\<rparr>,
                 warn_once (suppress_of (m_props m)) (style (m_props m)) ?w1)"
      by (simp add: subscribed_fiber_fields)
    have "step (Dispatch ty) s = Inr ?s'"
      by (simp add: step_def dispatchEvent_def called fire flush_system_def flush)
    moreover have "subscribed l ?s'"
      by (rule subscribedI [where h = n and m = "\<lparr>m_props = m_props m, m_fiber = subscribed_fiber l n,
                                   m_element = element_for (m_props m) n\<rparr>"])
        (simp_all add: cb win ls warn_once_fields call_onHeightChange_fields)
    ultimately show ?thesis
      by (simp add: same_listeners_def warn_once_fields call_onHeightChange_fields)
  qed
qed

lemma addEventListener_eq:
  "window w \<noteq> None \<Longrightarrow>
   addEventListener ty l b w =
     Inr (w\<lparr>listeners :=
              (if list_ex (\<lambda>(t, l', _). t = ty \<and> l' = l) (listeners w)
               then listeners w else listeners w @ [(ty, l, b)]),
            add_calls := add_calls w @ [(ty, l)]\<rparr>)"
  by (auto simp add: addEventListener_def get_window_def)

lemma run_cleanup_eq:
  "window w \<noteq> None \<Longrightarrow>
   run_cleanup l w =
     Inr (w\<lparr>listeners := filter (\<lambda>(t, l', _). l' \<noteq> l) (listeners w),
            remove_calls := remove_calls w @ [(resize, l), (orientationchange, l)]\<rparr>)"
proof -
  have "filter (\<lambda>(t, l', _). \<not> (t = orientationchange \<and> l' = l))
          (filter (\<lambda>(t, l', _). \<not> (t = resize \<and> l' = l)) xs) =
        filter (\<lambda>(t, l', _). l' \<noteq> l) xs" for xs :: "(event_type \<times> listener \<times> bool) list"
    by (induction xs) (auto intro: event_type.exhaust)
  then show "window w \<noteq> None \<Longrightarrow> ?thesis"
    by (auto simp add: run_cleanup_def removeEventListener_def get_window_def)
qed

text \<open>The effect of line 91 runs for a ready instance on a window without listeners.\<close>

lemma effect_subscribe_eq:
  assumes "window w \<noteq> None" and "listeners w = []"
  shows "effect_subscribe (True, l) f w =
           Inr (fst (setHeight l (viewport_height w) f (w\<lparr>measured := viewport_height w # measured w\<rparr>))
                  \<lparr>cleanup := Some l\<rparr>,
                (snd (setHeight l (viewport_height w) f (w\<lparr>measured := viewport_height w # measured w\<rparr>)))
                  \<lparr>listeners := [(resize, l, True), (orientationchange, l, True)],
                   add_calls := add_calls w @ [(resize, l), (orientationchange, l)]\<rparr>)"
proof -
  obtain f1 w1 where s: "setHeight l (viewport_height w) f (w\<lparr>measured := viewport_height w # measured w\<rparr>) = (f1, w1)"
    by (cases "setHeight l (viewport_height w) f (w\<lparr>measured := viewport_height w # measured w\<rparr>)")
  then have w1: "window w1 = window w" "listeners w1 = listeners w" "add_calls w1 = add_calls w"
    by (auto simp add: setHeight_def Let_def call_onHeightChange_fields split: if_splits)
  show ?thesis
    using assms by (simp add: effect_subscribe_def call_updateHeight_eq s addEventListener_eq w1)
qed

lemma commit_subscribes:
  assumes f: "f = \<lparr>height = h, isClientRendered = True, updateHeight = l, deps = (True, l),
                   cleanup = c, run_ready = False, run_subscribe = Some (True, l),
                   dirty = False, returned = h\<rparr>"
    and win: "window w \<noteq> None"
    and ls: "listeners w = (case c of None \<Rightarrow> [] | Some old \<Rightarrow> [(resize, old, True), (orientationchange, old, True)])"
    and cb: "captured l = callback_of p"
  shows "\<exists>m' w' ms.
           (case commit f w of
              Inl e \<Rightarrow> Inl e
            | Inr (f2, w2) \<Rightarrow> flush (\<lparr>m_props = p, m_fiber = f2, m_element = el\<rparr>, w2)) = Inr (m', w') \<and>
           m_props m' = p \<and> m_fiber m' = subscribed_fiber l (viewport_height w) \<and>
           measured w' = viewport_height w # ms \<and> renewed c l w w'"
proof -
  define n where "n = viewport_height w"
  define wc where "wc = (case c of None \<Rightarrow> w
     | Some old \<Rightarrow> w\<lparr>listeners := [], remove_calls := remove_calls w @ [(resize, old), (orientationchange, old)]\<rparr>)"
  have cleaned: "(case cleanup f of None \<Rightarrow> Inr w | Some old \<Rightarrow> run_cleanup old w) = Inr wc"
    using win ls by (cases c) (simp_all add: f wc_def run_cleanup_eq)
  have wc: "window wc = window w" "document wc = document w" "listeners wc = []"
    "add_calls wc = add_calls w" "next_fn wc = next_fn w"
    "remove_calls wc = remove_calls w @ (case c of None \<Rightarrow> [] | Some old \<Rightarrow> [(resize, old), (orientationchange, old)])"
    using ls by (cases c; simp add: wc_def)+
  have nc: "viewport_height wc = n"
    unfolding n_def by (rule viewport_height_cong) (simp_all add: wc)
  have winc: "window wc \<noteq> None"
    using win by (simp add: wc)
  note eff = effect_subscribe_eq [OF winc wc(3), of l f, unfolded nc]
  show ?thesis
  proof (cases "n = h")
    case True
    let ?w2 = "wc\<lparr>measured := h # measured wc,
                 listeners := [(resize, l, True), (orientationchange, l, True)],
                 add_calls := add_calls wc @ [(resize, l), (orientationchange, l)]\<rparr>"
    have "commit f w = Inr (subscribed_fiber l h, ?w2)"
      using True eff cleaned by (simp add: commit_def f setHeight_def subscribed_fiber_def)
    then show ?thesis
      using True by (simp add: flush_clean subscribed_fiber_fields renewed_def wc n_def [symmetric])
  next
    case False
    let ?w1 = "call_onHeightChange (captured l) n (wc\<lparr>measured := n # measured wc\<rparr>)"
    let ?w2 = "?w1\<lparr>listeners := [(resize, l, True), (orientationchange, l, True)],
                  add_calls := add_calls wc @ [(resize, l), (orientationchange, l)]\<rparr>"
    let ?f2 = "(subscribed_fiber l n)\<lparr>dirty := True, returned := h\<rparr>"
    let ?m2 = "\<lparr>m_props = p, m_fiber = ?f2, m_element = el\<rparr>"
    have c: "commit f w = Inr (?f2, ?w2)"
      using False eff cleaned by (simp add: commit_def f setHeight_def subscribed_fiber_def)
    have "flush (?m2, ?w2) =
            Inr (\<lparr>m_props = m_props ?m2,
                  m_fiber = subscribed_fiber (updateHeight (m_fiber ?m2)) (height (m_fiber ?m2)),
                  m_element = element_for (m_props ?m2) (height (m_fiber ?m2))\<rparr>,
                 warn_once (suppress_of (m_props ?m2)) (style (m_props ?m2)) ?w2)"
      by (rule flush_settled) (simp_all add: subscribed_fiber_fields cb)
    then show ?thesis
      by (simp add: c subscribed_fiber_fields renewed_def wc warn_once_fields
          call_onHeightChange_fields n_def [symmetric])
  qed
qed

lemma renewed_from:
  assumes "renewed c l w1 w'" and "add_calls w1 = add_calls w" and "remove_calls w1 = remove_calls w"
    and "window w1 = window w" and "document w1 = document w"
  shows "renewed c l w w'"
  using assms by (simp add: renewed_def)

lemma flush_render:
  assumes "DynamicViewportDiv (m_props m) (Some (m_fiber m)) w = Inr (el, f, w1)"
    and "dirty (m_fiber m)"
  shows "flush (m, w) =
           (case commit f w1 of
              Inl e \<Rightarrow> Inl e
            | Inr (f2, w2) \<Rightarrow> flush (\<lparr>m_props = m_props m, m_fiber = f2, m_element = el\<rparr>, w2))"
  using assms by (subst flush.simps) (simp add: render_commit_def split: sum.splits prod.splits)

lemma render_flush:
  assumes "DynamicViewportDiv p fo w = Inr (el, f, w1)"
    and "(case commit f w1 of
            Inl e \<Rightarrow> Inl e
          | Inr (f2, w2) \<Rightarrow> flush (\<lparr>m_props = p, m_fiber = f2, m_element = el\<rparr>, w2)) = Inr (m', w')"
  shows "(case render_commit p fo w of
            Inl e \<Rightarrow> Inl e
          | Inr (m, w2) \<Rightarrow> flush_system (s\<lparr>globals := w2, component := Some m\<rparr>))
         = Inr (s\<lparr>globals := w', component := Some m'\<rparr>)"
  using assms by (auto simp add: render_commit_def flush_system_def split: sum.splits prod.splits)

lemma mount_render:
  "useDynamicViewportHeight cb None w =
     Inr (None,
          \<lparr>height = viewport_height w, isClientRendered = False,
           updateHeight = \<lparr>fn_id = next_fn w, captured = cb\<rparr>,
           deps = (False, \<lparr>fn_id = next_fn w, captured = cb\<rparr>), cleanup = None,
           run_ready = True, run_subscribe = Some (False, \<lparr>fn_id = next_fn w, captured = cb\<rparr>),
           dirty = False, returned = None\<rparr>,
          w\<lparr>measured := viewport_height w # measured w, next_fn := Suc (next_fn w)\<rparr>)"
  by (simp add: useDynamicViewportHeight_def useState_height_def measureViewportHeight_viewport
      useIsClientRendered_def useCallback_def Let_def)

lemma mount_subscribes:
  assumes unmounted: "component s = None" and win: "window (globals s) \<noteq> None"
    and ls: "listeners (globals s) = []"
  shows "\<exists>s'. step (Mount p) s = Inr s' \<and>
           subscribed \<lparr>fn_id = next_fn (globals s), captured = callback_of p\<rparr> s' \<and>
           renewed None \<lparr>fn_id = next_fn (globals s), captured = callback_of p\<rparr> (globals s) (globals s')"
proof -
  define w where "w = globals s"
  define l where "l = \<lparr>fn_id = next_fn w, captured = callback_of p\<rparr>"
  define n where "n = viewport_height w"
  define w2 where "w2 = warn_once (suppress_of p) (style p)
                          (w\<lparr>measured := n # measured w, next_fn := Suc (next_fn w)\<rparr>)"
  define f1 where "f1 = \<lparr>height = n, isClientRendered = True, updateHeight = l, deps = (False, l),
                          cleanup = None, run_ready = False, run_subscribe = None, dirty = True,
                          returned = None\<rparr>"
  define m1 where "m1 = \<lparr>m_props = p, m_fiber = f1, m_element = element_for p None\<rparr>"
  define w3 where "w3 = warn_once (suppress_of p) (style p) w2"
  define f3 where "f3 = \<lparr>height = n, isClientRendered = True, updateHeight = l, deps = (True, l),
                          cleanup = None, run_ready = False, run_subscribe = Some (True, l),
                          dirty = False, returned = n\<rparr>"
  have first: "render_commit p None w = Inr (m1, w2)"
    by (simp add: render_commit_def DynamicViewportDiv_eq [OF mount_render] element_for_def
        commit_def effect_ready_def effect_subscribe_def m1_def f1_def w2_def l_def n_def)
  have "useDynamicViewportHeight (callback_of p) (Some f1) w2 = Inr (n, f3, w2)"
    by (simp add: useDynamicViewportHeight_update useCallback_same f1_def f3_def l_def Let_def)
  from DynamicViewportDiv_eq [OF this]
  have second: "DynamicViewportDiv (m_props m1) (Some (m_fiber m1)) w2 = Inr (element_for p n, f3, w3)"
    by (simp add: m1_def element_for_def w3_def)
  have w3: "window w3 = window w" "document w3 = document w" "listeners w3 = listeners w"
    "add_calls w3 = add_calls w" "remove_calls w3 = remove_calls w"
    "measured w3 = n # measured w"
    by (simp_all add: w3_def w2_def warn_once_fields)
  have n3: "viewport_height w3 = n"
    unfolding n_def by (rule viewport_height_cong) (simp_all add: w3)
  from commit_subscribes [of f3 n l None w3 p "element_for p n"]
  obtain m' w' ms where
    settled: "(case commit f3 w3 of
              Inl e \<Rightarrow> Inl e
            | Inr (f2, w2) \<Rightarrow> flush (\<lparr>m_props = p, m_fiber = f2, m_element = element_for p n\<rparr>, w2)) = Inr (m', w')"
    and m': "m_props m' = p" "m_fiber m' = subscribed_fiber l n"
    and w': "measured w' = n # ms" "renewed None l w3 w'"
    using win ls by (auto simp add: f3_def w3 n3 w_def l_def)
  have m1: "m_props m1 = p" "dirty (m_fiber m1)"
    by (simp_all add: m1_def f1_def)
  have "flush (m1, w2) = Inr (m', w')"
    using flush_render [OF second m1(2)] settled unfolding m1(1) by simp
  then have "step (Mount p) s = Inr (s\<lparr>globals := w', component := Some m'\<rparr>)"
    using unmounted first by (simp add: step_def w_def [symmetric] flush_system_def)
  moreover have "subscribed l (s\<lparr>globals := w', component := Some m'\<rparr>)"
    using m' w' win by (intro subscribedI [where m = m' and h = n and ms = ms])
      (simp_all add: l_def renewed_def w3 w_def)
  moreover have "renewed None l w w'"
    using w'(2) by (rule renewed_from) (simp_all add: w3)
  ultimately show ?thesis
    by (auto simp add: l_def w_def)
qed

lemma rerender_same:
  assumes "subscribed l s" and same: "callback_of p = captured l"
  shows "\<exists>s'. step (Rerender p) s = Inr s' \<and> subscribed l s' \<and>
           same_listeners (globals s) (globals s')"
proof -
  from assms(1) obtain m h ms where m: "component s = Some m"
    and win: "window (globals s) \<noteq> None"
    and ls: "listeners (globals s) = [(resize, l, True), (orientationchange, l, True)]"
    and ms: "measured (globals s) = h # ms" and f: "m_fiber m = subscribed_fiber l h"
    by (rule subscribedE)
  let ?m' = "\<lparr>m_props = p, m_fiber = subscribed_fiber l h, m_element = element_for p h\<rparr>"
  let ?s' = "s\<lparr>globals := warn_once (suppress_of p) (style p) (globals s), component := Some ?m'\<rparr>"
  have "render_commit p (Some (subscribed_fiber l h)) (globals s) =
          Inr (\<lparr>m_props = p,
                m_fiber = subscribed_fiber (updateHeight (subscribed_fiber l h)) (height (subscribed_fiber l h)),
                m_element = element_for p (height (subscribed_fiber l h))\<rparr>,
               warn_once (suppress_of p) (style p) (globals s))"
    by (rule settled_render_commit) (simp_all add: subscribed_fiber_fields same)
  then have "step (Rerender p) s = Inr ?s'"
    by (simp add: step_def m f flush_system_def flush_clean subscribed_fiber_fields)
  moreover have "subscribed l ?s'"
    by (rule subscribedI [where h = h and m = ?m']) (simp_all add: same win ls ms warn_once_fields)
  ultimately show ?thesis
    by (simp add: same_listeners_def warn_once_fields)
qed

lemma rerender_changed:
  assumes "subscribed l s" and changed: "callback_of p \<noteq> captured l"
  shows "\<exists>s'. step (Rerender p) s = Inr s' \<and>
           subscribed \<lparr>fn_id = next_fn (globals s), captured = callback_of p\<rparr> s' \<and>
           renewed (Some l) \<lparr>fn_id = next_fn (globals s), captured = callback_of p\<rparr> (globals s) (globals s')"
proof -
  from assms(1) obtain m h ms where m: "component s = Some m"
    and win: "window (globals s) \<noteq> None"
    and ls: "listeners (globals s) = [(resize, l, True), (orientationchange, l, True)]"
    and ms: "measured (globals s) = h # ms" and f: "m_fiber m = subscribed_fiber l h"
    by (rule subscribedE)
  define w where "w = globals s"
  define l' where "l' = \<lparr>fn_id = next_fn w, captured = callback_of p\<rparr>"
  define w2 where "w2 = warn_once (suppress_of p) (style p) (w\<lparr>next_fn := Suc (next_fn w)\<rparr>)"
  define f3 where "f3 = \<lparr>height = h, isClientRendered = True, updateHeight = l', deps = (True, l'),
                          cleanup = Some l, run_ready = False, run_subscribe = Some (True, l'),
                          dirty = False, returned = h\<rparr>"
  have differ: "l' \<noteq> l"
    using changed by (auto simp add: l'_def)
  have fresh: "useCallback (callback_of p) (Some (subscribed_fiber l h)) w = (l', w\<lparr>next_fn := Suc (next_fn w)\<rparr>)"
    using changed by (simp add: useCallback_def subscribed_fiber_fields l'_def)
  have "useDynamicViewportHeight (callback_of p) (Some (subscribed_fiber l h)) w =
          Inr (h, f3, w\<lparr>next_fn := Suc (next_fn w)\<rparr>)"
    using differ by (simp add: useDynamicViewportHeight_update fresh subscribed_fiber_fields f3_def Let_def)
  from DynamicViewportDiv_eq [OF this]
  have render: "DynamicViewportDiv p (Some (m_fiber m)) w = Inr (element_for p h, f3, w2)"
    by (simp add: f element_for_def w2_def)
  have w2: "window w2 = window w" "document w2 = document w" "listeners w2 = listeners w"
    "add_calls w2 = add_calls w" "remove_calls w2 = remove_calls w"
    by (simp_all add: w2_def warn_once_fields)
  from commit_subscribes [of f3 h l' "Some l" w2 p "element_for p h"]
  obtain m' w' ms' where
    settled: "(case commit f3 w2 of
              Inl e \<Rightarrow> Inl e
            | Inr (f2, w2) \<Rightarrow> flush (\<lparr>m_props = p, m_fiber = f2, m_element = element_for p h\<rparr>, w2)) = Inr (m', w')"
    and m': "m_props m' = p" "m_fiber m' = subscribed_fiber l' (viewport_height w2)"
    and w': "measured w' = viewport_height w2 # ms'" "renewed (Some l) l' w2 w'"
    using win ls by (auto simp add: f3_def w2 w_def l'_def)
  from render_flush [OF render settled, of s]
  have "step (Rerender p) s = Inr (s\<lparr>globals := w', component := Some m'\<rparr>)"
    by (simp add: step_def m w_def)
  moreover have "subscribed l' (s\<lparr>globals := w', component := Some m'\<rparr>)"
    using m' w' win by (intro subscribedI [where m = m' and h = "viewport_height w2" and ms = ms'])
      (simp_all add: l'_def renewed_def w2 w_def)
  moreover have "renewed (Some l) l' w w'"
    using w'(2) by (rule renewed_from) (simp_all add: w2)
  ultimately show ?thesis
    by (auto simp add: l'_def w_def)
qed

lemma geometry_subscribed:
  assumes "subscribed l s"
  shows "\<exists>s'. step (Geometry win) s = Inr s' \<and> subscribed l s' \<and>
           same_listeners (globals s) (globals s')"
  using assms
  by (auto simp add: step_def subscribed_def same_listeners_def split: option.splits)

lemma mount_mounted:
  assumes "subscribed l s"
  shows "step (Mount p) s = Inr s"
  using assms by (auto simp add: step_def subscribed_def split: option.splits)

lemma same_listeners_refl: "same_listeners w w"
  by (simp add: same_listeners_def)

lemma same_listeners_trans: "same_listeners w w1 \<Longrightarrow> same_listeners w1 w2 \<Longrightarrow> same_listeners w w2"
  by (simp add: same_listeners_def)

lemma step_keeps:
  assumes "subscribed l s" and "keeps_subscription (captured l) e"
  shows "\<exists>s'. step e s = Inr s' \<and> subscribed l s' \<and> same_listeners (globals s) (globals s')"
proof (cases e)
  case (Mount p)
  with mount_mounted [OF assms(1)] assms(1) show ?thesis
    by (simp add: same_listeners_refl)
next
  case (Rerender p)
  with assms show ?thesis
    by (simp add: rerender_same)
next
  case (Dispatch ty)
  with assms show ?thesis
    by (simp add: dispatch_subscribed)
next
  case (Geometry win)
  with assms show ?thesis
    by (simp add: geometry_subscribed)
next
  case Unmount
  with assms show ?thesis
    by simp
qed

lemma run_keeps:
  assumes "subscribed l s" and "list_all (keeps_subscription (captured l)) es"
  shows "\<exists>s'. run es s = Inr s' \<and> subscribed l s' \<and> same_listeners (globals s) (globals s')"
  using assms
proof (induction es arbitrary: s)
  case Nil
  then show ?case
    by (simp add: same_listeners_refl)
next
  case (Cons e es)
  from Cons.prems have "keeps_subscription (captured l) e" and rest: "list_all (keeps_subscription (captured l)) es"
    by simp_all
  from step_keeps [OF Cons.prems(1) this(1)] obtain s1 where
    s1: "step e s = Inr s1" "subscribed l s1" "same_listeners (globals s) (globals s1)"
    by blast
  from Cons.IH [OF s1(2) rest] obtain s' where
    "run es s1 = Inr s'" "subscribed l s'" "same_listeners (globals s1) (globals s')"
    by blast
  with s1 show ?case
    by (auto intro: same_listeners_trans)
qed

lemma unmount_subscribed:
  assumes "subscribed l s"
  shows "\<exists>s'. step Unmount s = Inr s' \<and> component s' = None \<and> listeners (globals s') = [] \<and>
           add_calls (globals s') = add_calls (globals s) \<and>
           remove_calls (globals s') = remove_calls (globals s) @ [(resize, l), (orientationchange, l)] \<and>
           window (globals s') = window (globals s)"
proof -
  from assms obtain m h ms where m: "component s = Some m"
    and win: "window (globals s) \<noteq> None"
    and ls: "listeners (globals s) = [(resize, l, True), (orientationchange, l, True)]"
    and f: "m_fiber m = subscribed_fiber l h"
    by (rule subscribedE)
  show ?thesis
    by (simp add: step_def m f subscribed_fiber_fields run_cleanup_eq [OF win] ls)
qed

lemma dispatch_unsubscribed:
  assumes "listeners (globals s) = []" and "component s = None"
  shows "step (Dispatch ty) s = Inr s"
  using assms
  by (simp add: step_def dispatchEvent_def flush_system_def split: option.splits)

text \<open>
  C3. An instance is mounted in a window without listeners, and then rendered again,
  notified and resized any number of times, with the same \<open>onHeightChange\<close> throughout.
  Then \<open>addEventListener\<close> was called exactly twice, once for \<open>resize\<close> and once for
  \<open>orientationchange\<close>, with one and the same function, and \<open>removeEventListener\<close> was not
  called. Unmounting next removes that function once for each type and leaves no listener,
  so that an event dispatched afterwards changes nothing. Rendering next with another
  \<open>onHeightChange\<close> removes the function once for each type and registers a new one once
  for each.
\<close>

theorem listeners_once:
  assumes "component s = None" and "window (globals s) \<noteq> None" and "listeners (globals s) = []"
    and "list_all (keeps_subscription (callback_of p)) es"
  shows "\<exists>s1 l. run (Mount p # es) s = Inr s1 \<and> captured l = callback_of p \<and>
           add_calls (globals s1) = add_calls (globals s) @ [(resize, l), (orientationchange, l)] \<and>
           remove_calls (globals s1) = remove_calls (globals s) \<and>
           listeners (globals s1) = [(resize, l, True), (orientationchange, l, True)] \<and>
           (\<exists>s2. step Unmount s1 = Inr s2 \<and>
                 add_calls (globals s2) = add_calls (globals s1) \<and>
                 remove_calls (globals s2) = remove_calls (globals s1) @ [(resize, l), (orientationchange, l)] \<and>
                 listeners (globals s2) = [] \<and>
                 (\<forall>ty. step (Dispatch ty) s2 = Inr s2)) \<and>
           (\<forall>p'. callback_of p' \<noteq> callback_of p \<longrightarrow>
              (\<exists>s3 l'. step (Rerender p') s1 = Inr s3 \<and> l' \<noteq> l \<and> captured l' = callback_of p' \<and>
                 remove_calls (globals s3) = remove_calls (globals s1) @ [(resize, l), (orientationchange, l)] \<and>
                 add_calls (globals s3) = add_calls (globals s1) @ [(resize, l'), (orientationchange, l')] \<and>
                 listeners (globals s3) = [(resize, l', True), (orientationchange, l', True)]))"
proof -
  define l where "l = \<lparr>fn_id = next_fn (globals s), captured = callback_of p\<rparr>"
  have cl: "captured l = callback_of p"
    by (simp add: l_def)
  from mount_subscribes [OF assms(1-3), of p] obtain s0 where
    s0: "step (Mount p) s = Inr s0" "subscribed l s0" "renewed None l (globals s) (globals s0)"
    by (auto simp add: l_def)
  from run_keeps [OF s0(2), of es] assms(4) obtain s1 where
    s1: "run es s0 = Inr s1" "subscribed l s1" "same_listeners (globals s0) (globals s1)"
    by (auto simp add: cl)
  have run: "run (Mount p # es) s = Inr s1"
    by (simp add: s0(1) s1(1))
  have calls: "add_calls (globals s1) = add_calls (globals s) @ [(resize, l), (orientationchange, l)]"
    "remove_calls (globals s1) = remove_calls (globals s)"
    "listeners (globals s1) = [(resize, l, True), (orientationchange, l, True)]"
    using s0(3) s1(3) by (simp_all add: renewed_def same_listeners_def)
  from unmount_subscribed [OF s1(2)] obtain s2 where
    s2: "step Unmount s1 = Inr s2" "component s2 = None" "listeners (globals s2) = []"
      "add_calls (globals s2) = add_calls (globals s1)"
      "remove_calls (globals s2) = remove_calls (globals s1) @ [(resize, l), (orientationchange, l)]"
    by blast
  have silent: "\<forall>ty. step (Dispatch ty) s2 = Inr s2"
    using dispatch_unsubscribed [OF s2(3) s2(2)] by simp
  have change: "\<exists>s3 l'. step (Rerender p') s1 = Inr s3 \<and> l' \<noteq> l \<and> captured l' = callback_of p' \<and>
                 remove_calls (globals s3) = remove_calls (globals s1) @ [(resize, l), (orientationchange, l)] \<and>
                 add_calls (globals s3) = add_calls (globals s1) @ [(resize, l'), (orientationchange, l')] \<and>
                 listeners (globals s3) = [(resize, l', True), (orientationchange, l', True)]"
    if "callback_of p' \<noteq> callback_of p" for p'
  proof -
    from that have "callback_of p' \<noteq> captured l"
      by (simp add: cl)
    from rerender_changed [OF s1(2) this] obtain s3 where
      "step (Rerender p') s1 = Inr s3"
      "renewed (Some l) \<lparr>fn_id = next_fn (globals s1), captured = callback_of p'\<rparr> (globals s1) (globals s3)"
      by blast
    with that show ?thesis
      by (intro exI [of _ s3] exI [of _ "\<lparr>fn_id = next_fn (globals s1), captured = callback_of p'\<rparr>"])
        (auto simp add: renewed_def l_def)
  qed
  from run cl calls s2(1,4,5,3) silent change show ?thesis
    by blast
qed

theorem listeners_once_witness:
  "component (initial (Some (layout_window 667)) True ''development'') = None \<and>
   window (globals (initial (Some (layout_window 667)) True ''development'')) \<noteq> None \<and>
   listeners (globals (initial (Some (layout_window 667)) True ''development'')) = [] \<and>
   list_all (keeps_subscription (callback_of plain_props))
     [Rerender plain_props, Geometry (visual_window 600 550), Dispatch resize] \<and>
   callback_of (callback_props 1) \<noteq> callback_of plain_props \<and>
   (\<exists>s1 l. run [Mount plain_props, Rerender plain_props, Geometry (visual_window 600 550), Dispatch resize]
               (initial (Some (layout_window 667)) True ''development'') = Inr s1 \<and>
           add_calls (globals s1) = [(resize, l), (orientationchange, l)] \<and>
           remove_calls (globals s1) = [] \<and>
           (\<exists>s2. step Unmount s1 = Inr s2 \<and>
                 add_calls (globals s2) = [(resize, l), (orientationchange, l)] \<and>
                 remove_calls (globals s2) = [(resize, l), (orientationchange, l)] \<and>
                 listeners (globals s2) = [] \<and>
                 step (Dispatch resize) s2 = Inr s2 \<and> step (Dispatch orientationchange) s2 = Inr s2) \<and>
           (\<exists>s3 l'. step (Rerender (callback_props 1)) s1 = Inr s3 \<and> l' \<noteq> l \<and>
                 remove_calls (globals s3) = [(resize, l), (orientationchange, l)] \<and>
                 add_calls (globals s3) =
                   [(resize, l), (orientationchange, l), (resize, l'), (orientationchange, l')] \<and>
                 listeners (globals s3) = [(resize, l', True), (orientationchange, l', True)]))"
proof -
  let ?s = "initial (Some (layout_window 667)) True ''development''"
  let ?es = "[Rerender plain_props, Geometry (visual_window 600 550), Dispatch resize]"
  have h: "component ?s = None" "window (globals ?s) \<noteq> None" "listeners (globals ?s) = []"
    "list_all (keeps_subscription (callback_of plain_props)) ?es"
    by (simp_all add: initial_def)
  have e: "add_calls (globals ?s) = []" "remove_calls (globals ?s) = []"
    by (simp_all add: initial_def)
  have c: "callback_of (callback_props 1) \<noteq> callback_of plain_props"
    by (simp add: callback_of_def callback_props_def plain_props_def)
  from listeners_once [OF h] obtain s1 l where
    s1: "run (Mount plain_props # ?es) ?s = Inr s1"
    "add_calls (globals s1) = add_calls (globals ?s) @ [(resize, l), (orientationchange, l)]"
    "remove_calls (globals s1) = remove_calls (globals ?s)"
    and unmount: "\<exists>s2. step Unmount s1 = Inr s2 \<and>
                 add_calls (globals s2) = add_calls (globals s1) \<and>
                 remove_calls (globals s2) = remove_calls (globals s1) @ [(resize, l), (orientationchange, l)] \<and>
                 listeners (globals s2) = [] \<and>
                 (\<forall>ty. step (Dispatch ty) s2 = Inr s2)"
    and change: "\<forall>p'. callback_of p' \<noteq> callback_of plain_props \<longrightarrow>
              (\<exists>s3 l'. step (Rerender p') s1 = Inr s3 \<and> l' \<noteq> l \<and> captured l' = callback_of p' \<and>
                 remove_calls (globals s3) = remove_calls (globals s1) @ [(resize, l), (orientationchange, l)] \<and>
                 add_calls (globals s3) = add_calls (globals s1) @ [(resize, l'), (orientationchange, l')] \<and>
                 listeners (globals s3) = [(resize, l', True), (orientationchange, l', True)])"
    by blast
  from change c have changed: "\<exists>s3 l'. step (Rerender (callback_props 1)) s1 = Inr s3 \<and> l' \<noteq> l \<and>
                 remove_calls (globals s3) = remove_calls (globals s1) @ [(resize, l), (orientationchange, l)] \<and>
                 add_calls (globals s3) = add_calls (globals s1) @ [(resize, l'), (orientationchange, l')] \<and>
                 listeners (globals s3) = [(resize, l', True), (orientationchange, l', True)]"
    by blast
  have "run (Mount plain_props # ?es) ?s = Inr s1 \<and>
           add_calls (globals s1) = [(resize, l), (orientationchange, l)] \<and>
           remove_calls (globals s1) = [] \<and>
           (\<exists>s2. step Unmount s1 = Inr s2 \<and>
                 add_calls (globals s2) = [(resize, l), (orientationchange, l)] \<and>
                 remove_calls (globals s2) = [(resize, l), (orientationchange, l)] \<and>
                 listeners (globals s2) = [] \<and>
                 step (Dispatch resize) s2 = Inr s2 \<and> step (Dispatch orientationchange) s2 = Inr s2) \<and>
           (\<exists>s3 l'. step (Rerender (callback_props 1)) s1 = Inr s3 \<and> l' \<noteq> l \<and>
                 remove_calls (globals s3) = [(resize, l), (orientationchange, l)] \<and>
                 add_calls (globals s3) =
                   [(resize, l), (orientationchange, l), (resize, l'), (orientationchange, l')] \<and>
                 listeners (globals s3) = [(resize, l', True), (orientationchange, l', True)])"
    using s1 unmount changed unfolding e by auto
  then have "\<exists>s1 l. run (Mount plain_props # ?es) ?s = Inr s1 \<and>
           add_calls (globals s1) = [(resize, l), (orientationchange, l)] \<and>
           remove_calls (globals s1) = [] \<and>
           (\<exists>s2. step Unmount s1 = Inr s2 \<and>
                 add_calls (globals s2) = [(resize, l), (orientationchange, l)] \<and>
                 remove_calls (globals s2) = [(resize, l), (orientationchange, l)] \<and>
                 listeners (globals s2) = [] \<and>
                 step (Dispatch resize) s2 = Inr s2 \<and> step (Dispatch orientationchange) s2 = Inr s2) \<and>
           (\<exists>s3 l'. step (Rerender (callback_props 1)) s1 = Inr s3 \<and> l' \<noteq> l \<and>
                 remove_calls (globals s3) = [(resize, l), (orientationchange, l)] \<and>
                 add_calls (globals s3) =
                   [(resize, l), (orientationchange, l), (resize, l'), (orientationchange, l')] \<and>
                 listeners (globals s3) = [(resize, l', True), (orientationchange, l', True)])"
    by blast
  with h c show ?thesis
    by blast
qed

section \<open>The value the hook returns: C2\<close>

lemma step_stays:
  assumes "subscribed l s" and "stays_mounted e"
  shows "\<exists>s' l'. step e s = Inr s' \<and> subscribed l' s'"
proof (cases "keeps_subscription (captured l) e")
  case True
  from step_keeps [OF assms(1) this] show ?thesis
    by blast
next
  case False
  with assms(2) obtain p where e: "e = Rerender p" and "callback_of p \<noteq> captured l"
    by (cases e) auto
  from rerender_changed [OF assms(1) this(2)] show ?thesis
    unfolding e by blast
qed

lemma run_stays:
  assumes "subscribed l s" and "list_all stays_mounted es"
  shows "\<exists>s' l'. run es s = Inr s' \<and> subscribed l' s'"
  using assms
proof (induction es arbitrary: s l)
  case Nil
  then show ?case
    by auto
next
  case (Cons e es)
  from Cons.prems have "stays_mounted e" and rest: "list_all stays_mounted es"
    by simp_all
  from step_stays [OF Cons.prems(1) this(1)] obtain s1 l1 where
    s1: "step e s = Inr s1" "subscribed l1 s1"
    by blast
  from Cons.IH [OF s1(2) rest] s1(1) show ?case
    by auto
qed

text \<open>
  C2. The first render of the hook returns null, in every state of the process, though it
  measured and holds the result; the instance is not ready then. Every later render
  returns null while the instance is not ready and the height held once it is, and changes
  neither. Every call of the listener leaves the height held equal to the measurement it
  took. So an instance mounted in a window without listeners, after any events that leave
  it mounted, is ready and has returned the last measurement taken.
\<close>

theorem hook_value_hydration:
  assumes "component s = None" and "window (globals s) \<noteq> None" and "listeners (globals s) = []"
    and "list_all stays_mounted es"
  shows "(\<exists>f w'. useDynamicViewportHeight (callback_of p) None (globals s) = Inr (None, f, w') \<and>
            \<not> isClientRendered f \<and>
            measureViewportHeight (globals s) = (Inr (height f), globals s)) \<and>
         (\<exists>f' w'. useDynamicViewportHeight cb (Some f) w =
                     Inr (if isClientRendered f then height f else None, f', w') \<and>
            height f' = height f \<and> isClientRendered f' = isClientRendered f \<and>
            measured w' = measured w) \<and>
         (\<exists>f' w'. call_updateHeight l f w = Inr (f', w') \<and> measured w' = height f' # measured w) \<and>
         (\<exists>s' m h ms. run (Mount p # es) s = Inr s' \<and> component s' = Some m \<and>
            isClientRendered (m_fiber m) \<and> measured (globals s') = h # ms \<and>
            height (m_fiber m) = h \<and> returned (m_fiber m) = h)"
proof -
  have first: "\<exists>f w'. useDynamicViewportHeight (callback_of p) None (globals s) = Inr (None, f, w') \<and>
            \<not> isClientRendered f \<and>
            measureViewportHeight (globals s) = (Inr (height f), globals s)"
    by (simp add: mount_render measureViewportHeight_viewport)
  have later: "\<exists>f' w'. useDynamicViewportHeight cb (Some f) w =
                     Inr (if isClientRendered f then height f else None, f', w') \<and>
            height f' = height f \<and> isClientRendered f' = isClientRendered f \<and>
            measured w' = measured w"
    by (simp add: useDynamicViewportHeight_update Let_def useCallback_def)
  have notified: "\<exists>f' w'. call_updateHeight l f w = Inr (f', w') \<and> measured w' = height f' # measured w"
    by (simp add: call_updateHeight_eq setHeight_def call_onHeightChange_fields)
  from mount_subscribes [OF assms(1-3), of p] obtain s0 l0 where
    s0: "step (Mount p) s = Inr s0" "subscribed l0 s0"
    by blast
  from run_stays [OF s0(2) assms(4)] obtain s' l' where
    s': "run es s0 = Inr s'" "subscribed l' s'"
    by blast
  from s'(2) obtain m h ms where "component s' = Some m" "measured (globals s') = h # ms"
    "m_fiber m = subscribed_fiber l' h"
    by (rule subscribedE)
  with s0(1) s'(1) have rest: "\<exists>s' m h ms. run (Mount p # es) s = Inr s' \<and> component s' = Some m \<and>
            isClientRendered (m_fiber m) \<and> measured (globals s') = h # ms \<and>
            height (m_fiber m) = h \<and> returned (m_fiber m) = h"
    by (simp add: subscribed_fiber_fields)
  from first later notified rest show ?thesis
    by (intro conjI)
qed

theorem hook_value_hydration_witness:
  "component (initial (Some (layout_window 667)) True ''development'') = None \<and>
   window (globals (initial (Some (layout_window 667)) True ''development'')) \<noteq> None \<and>
   listeners (globals (initial (Some (layout_window 667)) True ''development'')) = [] \<and>
   list_all stays_mounted [Geometry (visual_window 600 550), Dispatch resize] \<and>
   (\<exists>f w'. useDynamicViewportHeight (callback_of plain_props) None
              (globals (initial (Some (layout_window 667)) True ''development'')) = Inr (None, f, w') \<and>
      \<not> isClientRendered f \<and> height f = Some 667) \<and>
   (\<exists>s' m h ms. run [Mount plain_props, Geometry (visual_window 600 550), Dispatch resize]
                   (initial (Some (layout_window 667)) True ''development'') = Inr s' \<and>
      component s' = Some m \<and> isClientRendered (m_fiber m) \<and>
      measured (globals s') = h # ms \<and> returned (m_fiber m) = h) \<and>
   subscribed_height (run [Mount plain_props, Geometry (visual_window 600 550), Dispatch resize]
                        (initial (Some (layout_window 667)) True ''development'')) = Some 550"
proof -
  let ?s = "initial (Some (layout_window 667)) True ''development''"
  let ?es = "[Geometry (visual_window 600 550), Dispatch resize]"
  have h: "component ?s = None" "window (globals ?s) \<noteq> None" "listeners (globals ?s) = []"
    "list_all stays_mounted ?es"
    by (simp_all add: initial_def)
  have m: "measureViewportHeight (globals ?s) = (Inr (Some 667), globals ?s)"
    by (simp add: measureViewportHeight_eq initial_def layout_window_def)
  have v: "subscribed_height (run (Mount plain_props # ?es) ?s) = Some 550"
    by code_simp
  note t = hook_value_hydration [OF h, of plain_props None "subscribed_fiber \<lparr>fn_id = 0, captured = None\<rparr> None"
      "globals ?s" "\<lparr>fn_id = 0, captured = None\<rparr>"]
  from t have "\<exists>f w'. useDynamicViewportHeight (callback_of plain_props) None (globals ?s) = Inr (None, f, w') \<and>
      \<not> isClientRendered f \<and> height f = Some 667"
    unfolding m by auto
  moreover from t have "\<exists>s' m h ms. run (Mount plain_props # ?es) ?s = Inr s' \<and>
      component s' = Some m \<and> isClientRendered (m_fiber m) \<and>
      measured (globals s') = h # ms \<and> returned (m_fiber m) = h"
    by blast
  ultimately show ?thesis
    using h v by blast
qed

section \<open>The development warning: C5\<close>

lemma quiet_refl: "quiet w w"
  by (simp add: quiet_def)

lemma quiet_trans: "quiet w w1 \<Longrightarrow> quiet w1 w2 \<Longrightarrow> quiet w w2"
  by (simp add: quiet_def)

lemma useCallback_quiet: "quiet w (snd (useCallback cb fo w))"
  by (simp add: useCallback_def quiet_def Let_def split: option.splits)

lemma useState_height_quiet: "useState_height fo w = Inr (h, w1) \<Longrightarrow> quiet w w1"
  by (auto simp add: useState_height_def measureViewportHeight_viewport quiet_def split: option.splits)

lemma useDynamicViewportHeight_quiet:
  assumes "useDynamicViewportHeight cb fo w = Inr (v, f, w')"
  shows "quiet w w'"
proof -
  from assms obtain h w1 where s: "useState_height fo w = Inr (h, w1)"
    and w': "w' = snd (useCallback cb fo w1)"
    by (auto simp add: useDynamicViewportHeight_def Let_def split: sum.splits prod.splits)
  from useState_height_quiet [OF s] useCallback_quiet [of w1 cb fo] show ?thesis
    unfolding w' by (rule quiet_trans)
qed

lemma call_updateHeight_quiet: "call_updateHeight l f w = Inr (f', w') \<Longrightarrow> quiet w w'"
  by (auto simp add: call_updateHeight_eq setHeight_def call_onHeightChange_def quiet_def Let_def
      split: if_splits option.splits)

lemma addEventListener_quiet: "addEventListener ty l b w = Inr w' \<Longrightarrow> quiet w w'"
  by (auto simp add: addEventListener_def quiet_def split: sum.splits)

lemma removeEventListener_quiet: "removeEventListener ty l w = Inr w' \<Longrightarrow> quiet w w'"
  by (auto simp add: removeEventListener_def quiet_def split: sum.splits)

lemma run_cleanup_quiet: "run_cleanup l w = Inr w' \<Longrightarrow> quiet w w'"
  by (auto simp add: run_cleanup_def split: sum.splits
      dest!: removeEventListener_quiet intro: quiet_trans)

lemma effect_subscribe_quiet: "effect_subscribe c f w = Inr (f', w') \<Longrightarrow> quiet w w'"
  by (auto simp add: effect_subscribe_def Let_def quiet_refl split: prod.splits sum.splits if_splits
      dest!: call_updateHeight_quiet addEventListener_quiet intro: quiet_trans)

lemma commit_quiet: "commit f w = Inr (f', w') \<Longrightarrow> quiet w w'"
  by (auto simp add: commit_def Let_def quiet_refl split: option.splits sum.splits prod.splits
      dest!: run_cleanup_quiet effect_subscribe_quiet intro: quiet_trans)

lemma warn_once_cases: "quiet w (warn_once b st w) \<or> warned w (warn_once b st w)"
  by (simp add: warn_once_def quiet_def warned_def)

lemma DynamicViewportDiv_warns:
  assumes "DynamicViewportDiv p fo w = Inr (el, f, w')"
  shows "quiet w w' \<or> warned w w'"
proof -
  from DynamicViewportDiv_hook [OF assms] obtain v w1 where
    h: "useDynamicViewportHeight (callback_of p) fo w = Inr (v, f, w1)" by blast
  from assms have w': "w' = warn_once (suppress_of p) (style p) w1"
    by (simp add: DynamicViewportDiv_eq [OF h])
  from useDynamicViewportHeight_quiet [OF h] warn_once_cases [of w1 "suppress_of p" "style p"]
  show ?thesis
    unfolding w' by (auto simp add: quiet_def warned_def)
qed

lemma perform_warns: "perform x w = Inr w' \<Longrightarrow> quiet w w' \<or> warned w w'"
  by (cases x)
    (auto simp add: perform_def quiet_def [of w "w\<lparr>window := _\<rparr>"] split: sum.splits prod.splits
      dest: DynamicViewportDiv_warns useDynamicViewportHeight_quiet commit_quiet
        call_updateHeight_quiet run_cleanup_quiet)

text \<open>
  C5. Over any sequence of operations of the module, by any number of instances with any
  props: once the flag is true it stays true and nothing more is written to the console;
  while it is false nothing has been written; and it becomes true together with the one
  warning. From the load of the module (flag false) the warning is written at most once.
\<close>

theorem warning_once:
  assumes "perform_all xs w = Inr w'"
  shows "(hasWarned w \<longrightarrow> hasWarned w' \<and> console w' = console w) \<and>
         (\<not> hasWarned w \<longrightarrow>
            (\<not> hasWarned w' \<and> console w' = console w) \<or>
            (hasWarned w' \<and> console w' = console w @ [warning_text]))"
  using assms
proof (induction xs arbitrary: w)
  case Nil
  then show ?case by simp
next
  case (Cons x xs)
  from Cons.prems obtain w1 where p: "perform x w = Inr w1" and r: "perform_all xs w1 = Inr w'"
    by (auto split: sum.splits)
  from perform_warns [OF p] Cons.IH [OF r] show ?case
    by (auto simp add: quiet_def warned_def)
qed

theorem warning_once_witness:
  "perform_all [Render tall_props None, Render tall_props None] (browser (layout_window 600)) =
     Inr \<lparr>window = Some (layout_window 600), document = True, NODE_ENV = ''development'',
          hasWarned = True, console = [warning_text], listeners = [], next_fn = 2,
          add_calls = [], remove_calls = [], callback_calls = [],
          measured = [Some 600, Some 600]\<rparr> \<and>
   \<not> hasWarned (browser (layout_window 600)) \<and> console (browser (layout_window 600)) = [] \<and>
   perform_all [Render tall_props None]
       \<lparr>window = Some (layout_window 600), document = True, NODE_ENV = ''development'',
          hasWarned = True, console = [warning_text], listeners = [], next_fn = 2,
          add_calls = [], remove_calls = [], callback_calls = [],
          measured = [Some 600, Some 600]\<rparr> =
     Inr \<lparr>window = Some (layout_window 600), document = True, NODE_ENV = ''development'',
          hasWarned = True, console = [warning_text], listeners = [], next_fn = 3,
          add_calls = [], remove_calls = [], callback_calls = [],
          measured = [Some 600, Some 600, Some 600]\<rparr>"
proof -
  let ?w = "\<lparr>window = Some (layout_window 600), document = True, NODE_ENV = ''development'',
          hasWarned = True, console = [warning_text], listeners = [], next_fn = 2,
          add_calls = [], remove_calls = [], callback_calls = [],
          measured = [Some 600, Some 600]\<rparr>"
  have h: "perform_all [Render tall_props None, Render tall_props None] (browser (layout_window 600)) = Inr ?w"
    by code_simp
  have k: "perform_all [Render tall_props None] ?w =
     Inr \<lparr>window = Some (layout_window 600), document = True, NODE_ENV = ''development'',
          hasWarned = True, console = [warning_text], listeners = [], next_fn = 3,
          add_calls = [], remove_calls = [], callback_calls = [],
          measured = [Some 600, Some 600, Some 600]\<rparr>"
    by code_simp
  from warning_once [OF h] warning_once [OF k] show ?thesis
    by (simp add: h k browser_fields del: perform_all.simps)
qed

text \<open>
  The life of one instance is such a sequence: whatever a run of events does to the process
  is done by renders, commits, listener calls and cleanups.
\<close>

lemma perform_all_append:
  "perform_all (xs @ ys) w =
     (case perform_all xs w of Inl e \<Rightarrow> Inl e | Inr w1 \<Rightarrow> perform_all ys w1)"
  by (induction xs arbitrary: w) (auto split: sum.splits)

lemma performs_trans:
  assumes "\<exists>xs. perform_all xs w = Inr w1" and "\<exists>ys. perform_all ys w1 = Inr w2"
  shows "\<exists>zs. perform_all zs w = Inr w2"
proof -
  from assms obtain xs ys where "perform_all xs w = Inr w1" "perform_all ys w1 = Inr w2"
    by blast
  then have "perform_all (xs @ ys) w = Inr w2"
    by (simp add: perform_all_append)
  then show ?thesis ..
qed

lemma render_commit_performs:
  assumes "render_commit p fo w = Inr (m, w')"
  shows "\<exists>xs. perform_all xs w = Inr w'"
proof -
  from assms obtain el f w1 where r: "DynamicViewportDiv p fo w = Inr (el, f, w1)"
    and c: "commit f w1 = Inr (m_fiber m, w')"
    by (auto simp add: render_commit_def split: sum.splits prod.splits)
  then have "perform_all [Render p fo, Commit f] w = Inr w'"
    by (simp add: perform_def)
  then show ?thesis ..
qed

lemma flush_performs:
  "flush s = Inr (m', w') \<Longrightarrow> \<exists>xs. perform_all xs (snd s) = Inr w'"
proof (induction s arbitrary: m' w' rule: flush.induct)
  case (1 m w)
  show ?case
  proof (cases "dirty (m_fiber m)")
    case False
    with "1.prems" have "perform_all [] w = Inr w'"
      by (simp add: flush.simps)
    then show ?thesis
      unfolding snd_conv ..
  next
    case True
    with "1.prems" obtain s1 where rc: "render_commit (m_props m) (Some (m_fiber m)) w = Inr s1"
      and f: "flush s1 = Inr (m', w')"
      by (auto simp add: flush.simps [of m w] split: sum.splits)
    from render_commit_performs [of "m_props m" "Some (m_fiber m)" w "fst s1" "snd s1"] rc
    have "\<exists>xs. perform_all xs w = Inr (snd s1)"
      by simp
    moreover from "1.IH" [OF True rc f] have "\<exists>ys. perform_all ys (snd s1) = Inr w'" .
    ultimately show ?thesis
      unfolding snd_conv by (rule performs_trans)
  qed
qed

lemma flush_system_performs:
  assumes "flush_system s = Inr s'"
  shows "\<exists>xs. perform_all xs (globals s) = Inr (globals s')"
proof (cases "component s")
  case None
  with assms have "perform_all [] (globals s) = Inr (globals s')"
    by (simp add: flush_system_def)
  then show ?thesis ..
next
  case (Some m)
  with assms obtain m1 w1 where "flush (m, globals s) = Inr (m1, w1)" and "globals s' = w1"
    by (auto simp add: flush_system_def split: sum.splits prod.splits)
  with flush_performs [of "(m, globals s)" m1 w1] show ?thesis
    by simp
qed

lemma fire_performs:
  assumes "fire l s = Inr s'"
  shows "\<exists>xs. perform_all xs (globals s) = Inr (globals s')"
proof (cases "component s")
  case None
  let ?f = "subscribed_fiber l (viewport_height (globals s))"
  from None assms have "perform_all [Notify l ?f] (globals s) = Inr (globals s')"
    by (auto simp add: fire_def perform_def measureViewportHeight_viewport call_updateHeight_eq
        setHeight_def subscribed_fiber_fields)
  then show ?thesis ..
next
  case (Some m)
  with assms have "perform_all [Notify l (m_fiber m)] (globals s) = Inr (globals s')"
    by (auto simp add: fire_def perform_def split: sum.splits prod.splits)
  then show ?thesis ..
qed

lemma fire_all_performs:
  "fire_all ls s = Inr s' \<Longrightarrow> \<exists>xs. perform_all xs (globals s) = Inr (globals s')"
proof (induction ls arbitrary: s)
  case Nil
  then have "perform_all [] (globals s) = Inr (globals s')"
    by simp
  then show ?case ..
next
  case (Cons l ls)
  from Cons.prems obtain s1 where f: "fire l s = Inr s1" and r: "fire_all ls s1 = Inr s'"
    by (auto split: sum.splits)
  from fire_performs [OF f] Cons.IH [OF r] show ?case
    by (rule performs_trans)
qed

lemma step_performs:
  assumes "step e s = Inr s'"
  shows "\<exists>xs. perform_all xs (globals s) = Inr (globals s')"
proof (cases e)
  case (Mount p)
  show ?thesis
  proof (cases "component s")
    case None
    with Mount assms obtain m w where rc: "render_commit p None (globals s) = Inr (m, w)"
      and fl: "flush_system (s\<lparr>globals := w, component := Some m\<rparr>) = Inr s'"
      by (auto simp add: step_def split: sum.splits prod.splits)
    from render_commit_performs [OF rc] flush_system_performs [OF fl] show ?thesis
      by (auto intro: performs_trans)
  next
    case (Some m)
    with Mount assms have "perform_all [] (globals s) = Inr (globals s')"
      by (simp add: step_def)
    then show ?thesis ..
  qed
next
  case (Rerender p)
  show ?thesis
  proof (cases "component s")
    case None
    with Rerender assms have "perform_all [] (globals s) = Inr (globals s')"
      by (simp add: step_def)
    then show ?thesis ..
  next
    case (Some m0)
    with Rerender assms obtain m w where rc: "render_commit p (Some (m_fiber m0)) (globals s) = Inr (m, w)"
      and fl: "flush_system (s\<lparr>globals := w, component := Some m\<rparr>) = Inr s'"
      by (auto simp add: step_def split: sum.splits prod.splits)
    from render_commit_performs [OF rc] flush_system_performs [OF fl] show ?thesis
      by (auto intro: performs_trans)
  qed
next
  case (Dispatch ty)
  with assms obtain s1 where
    f: "fire_all (map (\<lambda>(t, l, _). l) (filter (\<lambda>(t, l, _). t = ty) (listeners (globals s)))) s = Inr s1"
    and fl: "flush_system s1 = Inr s'"
    by (auto simp add: step_def dispatchEvent_def split: sum.splits)
  from fire_all_performs [OF f] flush_system_performs [OF fl] show ?thesis
    by (rule performs_trans)
next
  case (Geometry win)
  show ?thesis
  proof (cases "window (globals s)")
    case None
    with Geometry assms have "perform_all [] (globals s) = Inr (globals s')"
      by (simp add: step_def)
    then show ?thesis ..
  next
    case (Some old)
    with Geometry assms have "perform_all [Viewport (Some win)] (globals s) = Inr (globals s')"
      by (auto simp add: step_def perform_def)
    then show ?thesis ..
  qed
next
  case Unmount
  show ?thesis
  proof (cases "component s")
    case None
    with Unmount assms have "perform_all [] (globals s) = Inr (globals s')"
      by (simp add: step_def)
    then show ?thesis ..
  next
    case (Some m)
    show ?thesis
    proof (cases "cleanup (m_fiber m)")
      case None
      with Some Unmount assms have "perform_all [] (globals s) = Inr (globals s')"
        by (auto simp add: step_def)
      then show ?thesis ..
    next
      case (Some l)
      with \<open>component s = Some m\<close> Unmount assms
      have "perform_all [Cleanup l] (globals s) = Inr (globals s')"
        by (auto simp add: step_def perform_def split: sum.splits)
      then show ?thesis ..
    qed
  qed
qed

lemma run_performs:
  "run es s = Inr s' \<Longrightarrow> \<exists>xs. perform_all xs (globals s) = Inr (globals s')"
proof (induction es arbitrary: s)
  case Nil
  then have "perform_all [] (globals s) = Inr (globals s')"
    by simp
  then show ?case ..
next
  case (Cons e es)
  from Cons.prems obtain s1 where f: "step e s = Inr s1" and r: "run es s1 = Inr s'"
    by (auto split: sum.splits)
  from step_performs [OF f] Cons.IH [OF r] show ?case
    by (rule performs_trans)
qed

end
